theory Spec2Isabelle
  imports Main "HOL-Library.Sublist"
begin

section \<open>sequelize-dry-run: a shallow embedding of \<open>src/index.js\<close>\<close>

text \<open>
  The module exports \<open>createDryRun\<close>, which closes over a database handle
  (\<open>sequelize\<close>), a tracking-table name and a buffer \<open>capturedQueries\<close>, and returns
  the two entry points \<open>up\<close> and \<open>down\<close>. Both replace \<open>sequelize.query\<close> and two
  methods of \<open>SequelizeStorage.prototype\<close> while they run and put stored references
  back in a \<open>finally\<close> block.

  Strings are Isabelle strings: the text of a statement is the list of its characters,
  the three non-ASCII characters of the source's literals are written as their UTF-8
  bytes, and the case mappings act on the ASCII letters (SQL text; a character outside
  ASCII is left as it is).
\<close>

subsection \<open>Strings\<close>

definition toLowerCase_char :: "char \<Rightarrow> char" where
  "toLowerCase_char c =
     (case map_of (zip ''ABCDEFGHIJKLMNOPQRSTUVWXYZ'' ''abcdefghijklmnopqrstuvwxyz'') c of
        Some l \<Rightarrow> l
      | None \<Rightarrow> c)"

definition toLowerCase :: "string \<Rightarrow> string" where
  "toLowerCase s = map toLowerCase_char s"

definition toUpperCase_char :: "char \<Rightarrow> char" where
  "toUpperCase_char c =
     (case map_of (zip ''abcdefghijklmnopqrstuvwxyz'' ''ABCDEFGHIJKLMNOPQRSTUVWXYZ'') c of
        Some u \<Rightarrow> u
      | None \<Rightarrow> c)"

definition toUpperCase :: "string \<Rightarrow> string" where
  "toUpperCase s = map toUpperCase_char s"

text \<open>\<open>s.startsWith(p)\<close> and \<open>s.includes(p)\<close>.\<close>

definition startsWith :: "string \<Rightarrow> string \<Rightarrow> bool" where
  "startsWith s p = prefix p s"

fun str_includes :: "string \<Rightarrow> string \<Rightarrow> bool" where
  "str_includes [] p = (p = [])"
| "str_includes (c # cs) p = (prefix p (c # cs) \<or> str_includes cs p)"

text \<open>\<open>"=".repeat(n)\<close>, \<open>xs.join(sep)\<close> and the decimal rendering of an index.\<close>

definition repeat :: "string \<Rightarrow> nat \<Rightarrow> string" where
  "repeat s n = concat (replicate n s)"

fun join :: "string \<Rightarrow> string list \<Rightarrow> string" where
  "join sep [] = []"
| "join sep [x] = x"
| "join sep (x # y # ys) = x @ sep @ join sep (y # ys)"

definition digit_char :: "nat \<Rightarrow> char" where
  "digit_char d =
     (if d = 0 then CHR ''0'' else if d = 1 then CHR ''1'' else if d = 2 then CHR ''2''
      else if d = 3 then CHR ''3'' else if d = 4 then CHR ''4'' else if d = 5 then CHR ''5''
      else if d = 6 then CHR ''6'' else if d = 7 then CHR ''7'' else if d = 8 then CHR ''8''
      else CHR ''9'')"

fun string_of_nat :: "nat \<Rightarrow> string" where
  "string_of_nat n =
     (if n < 10 then [digit_char n] else string_of_nat (n div 10) @ [digit_char (n mod 10)])"

declare string_of_nat.simps [simp del]

subsection \<open>The query classifier\<close>

text \<open>
  \<^verbatim>\<open>const METADATA_QUERIES = /^(pragma|show|describe|select)|information_schema/i;\<close>

  The alternation binds weaker than the anchor and the group: the expression matches a
  text that starts with one of the four keywords, or that contains
  \<open>information_schema\<close> at any position. The flag \<open>i\<close> compares letters without
  regard to case.
\<close>

definition METADATA_QUERIES_test :: "string \<Rightarrow> bool" where
  "METADATA_QUERIES_test s =
     (let l = toLowerCase s in
        (startsWith l ''pragma'' \<or> startsWith l ''show'' \<or> startsWith l ''describe''
           \<or> startsWith l ''select'')
        \<or> str_includes l ''information_schema'')"

text \<open>
  \<^verbatim>\<open>
  const shouldPassThrough = (sql) => {
    const lower = sql.toLowerCase();
    return (
      (lower.startsWith("select") && lower.includes(tableName.toLowerCase())) ||
      METADATA_QUERIES.test(lower)
    );
  };\<close>
  \<open>tableName\<close> is a variable of the enclosing closure; it is the first argument here.
\<close>

definition shouldPassThrough :: "string \<Rightarrow> string \<Rightarrow> bool" where
  "shouldPassThrough tableName sql =
     (let lower = toLowerCase sql in
        (startsWith lower ''select'' \<and> str_includes lower (toLowerCase tableName))
        \<or> METADATA_QUERIES_test lower)"

text \<open>
  The classifier as the specification words it: a statement passes through when it
  begins with a read-only introspection keyword, or when its lowercase form is a
  \<open>select\<close> that mentions the lowercased tracking-table name; every other statement
  is captured. Keywords are compared without regard to case, as SQL keywords are.
\<close>

definition introspection_keywords :: "string list" where
  "introspection_keywords = [''pragma'', ''show'', ''describe'', ''select'']"

definition begins_with_introspection_keyword :: "string \<Rightarrow> bool" where
  "begins_with_introspection_keyword sql =
     list_ex (\<lambda>kw. startsWith (toLowerCase sql) kw) introspection_keywords"

definition spec_passes_through :: "string \<Rightarrow> string \<Rightarrow> bool" where
  "spec_passes_through tableName sql =
     (begins_with_introspection_keyword sql
      \<or> (startsWith (toLowerCase sql) ''select''
          \<and> str_includes (toLowerCase sql) (toLowerCase tableName)))"

subsection \<open>The transcript formatter\<close>

text \<open>
  \<^verbatim>\<open>
  const formatQueries = (name, direction, queries) => {
    const output = [];
    output.push("\n" + "=".repeat(70));
    output.push(`<U+1F4C4> Migration ${direction.toUpperCase()}: ${name}`);
    output.push("=".repeat(70));
    if (!queries.length) {
      output.push("(No SQL generated)\n");
      return output.join("\n");
    }
    queries.forEach((sql, i) => output.push(`${i + 1}. ${sql}\n`));
    return output.join("\n");
  };\<close>
  \<open>formatQueries_output\<close> is the array \<open>output\<close> at the moment it is joined, and
  \<open>formatQueries\<close> the returned text. The \<open>forEach\<close> is a fold over the statements
  paired with their indices, each step pushing one line.
\<close>

definition page_emoji :: string where
  "page_emoji = [CHR 0xF0, CHR 0x9F, CHR 0x93, CHR 0x84]"

definition formatQueries_header :: "string \<Rightarrow> string \<Rightarrow> string list" where
  "formatQueries_header name direction =
     [''\<newline>'' @ repeat ''='' 70,
      page_emoji @ '' Migration '' @ toUpperCase direction @ '': '' @ name,
      repeat ''='' 70]"

definition numbered_entry :: "nat \<Rightarrow> string \<Rightarrow> string" where
  "numbered_entry i sql = string_of_nat (i + 1) @ ''. '' @ sql @ ''\<newline>''"

definition formatQueries_output :: "string \<Rightarrow> string \<Rightarrow> string list \<Rightarrow> string list" where
  "formatQueries_output name direction queries =
     (let output = formatQueries_header name direction in
        if length queries = 0 then output @ [''(No SQL generated)\<newline>'']
        else foldl (\<lambda>out (i, sql). out @ [numbered_entry i sql]) output
               (enumerate 0 queries))"

definition formatQueries :: "string \<Rightarrow> string \<Rightarrow> string list \<Rightarrow> string" where
  "formatQueries name direction queries =
     join ''\<newline>'' (formatQueries_output name direction queries)"

subsection \<open>Values, the database and the mutable state\<close>

text \<open>
  A thrown value; a statement payload (\<open>typeof sql === "string"\<close> or anything else,
  such as a pre-built query object, kept as an opaque identity); the \<open>options\<close>
  argument of \<open>query\<close>, of which the code reads the field \<open>type\<close> only; and what
  the entry point resolves to: \<open>[0, 0]\<close>, \<open>[[], {}]\<close> or whatever the original
  function returned.
\<close>

datatype js_error = Error string | TypeError string

datatype sql_payload = SqlText string | SqlOther nat

datatype query_options = OptionsUndefined | OptionsObject "string option"

datatype 'r query_result = EmptyEffect | EmptyResultSet | FromDatabase 'r

text \<open>
  \<open>sequelize.constructor.QueryTypes\<close> belongs to the Sequelize library: an object of
  string constants, each equal to its own key.
\<close>

definition QueryTypes_SELECT :: string where "QueryTypes_SELECT = ''SELECT''"
definition QueryTypes_INSERT :: string where "QueryTypes_INSERT = ''INSERT''"
definition QueryTypes_UPDATE :: string where "QueryTypes_UPDATE = ''UPDATE''"
definition QueryTypes_DELETE :: string where "QueryTypes_DELETE = ''DELETE''"

text \<open>
  The real database is seen through the calls that reach the original \<open>query\<close>
  function: it answers a call from the whole history of calls, the last element being
  the current one.
\<close>

type_synonym 'r database = "(sql_payload \<times> query_options) list \<Rightarrow> js_error + 'r"

text \<open>
  Function objects are compared by identity, so each is an address; \<open>next_ref\<close> is the
  first address not yet in use, and evaluating a function expression or
  \<open>f.bind(x)\<close> takes it. The state holds the three patched slots
  (\<open>sequelize.query\<close>, \<open>SequelizeStorage.prototype.logMigration\<close> and
  \<open>SequelizeStorage.prototype.unlogMigration\<close>), the closure's array
  \<open>capturedQueries\<close>, the calls the real database has received, and the lines given
  to \<open>logger.log\<close>.

  \<open>capturedQueries.slice(startIdx)\<close> makes a new array object, and the code puts
  that one object both into the result (\<open>sql: queries\<close>) and into the call of
  \<open>onMigration\<close>. Such arrays therefore live in a store, \<open>arrays\<close>: the reference of
  an array is its position there, and whoever holds the reference can change the
  contents.
\<close>

type_synonym fn_ref = nat

record state =
  sequelize_query :: fn_ref
  storage_logMigration :: fn_ref
  storage_unlogMigration :: fn_ref
  next_ref :: fn_ref
  capturedQueries :: "string list"
  db_calls :: "(sql_payload \<times> query_options) list"
  logged :: "string list"
  arrays :: "string list list"

text \<open>
  Reading an array, replacing its contents in place (any sequence of \<open>push\<close>,
  \<open>pop\<close>, \<open>splice\<close> or index assignments amounts to one replacement), and
  \<open>capturedQueries.slice(startIdx)\<close>, which gives the reference of the new array. A
  reference that names no array cannot be held by any code; reading it gives the empty
  list and writing it changes nothing.
\<close>

type_synonym array_ref = nat

definition array_at :: "state \<Rightarrow> array_ref \<Rightarrow> string list" where
  "array_at s a = (if a < length (arrays s) then arrays s ! a else [])"

definition array_write :: "array_ref \<Rightarrow> string list \<Rightarrow> state \<Rightarrow> state" where
  "array_write a xs s =
     (if a < length (arrays s) then s\<lparr> arrays := (arrays s)[a := xs] \<rparr> else s)"

definition slice :: "nat \<Rightarrow> state \<Rightarrow> array_ref \<times> state" where
  "slice startIdx s =
     (length (arrays s), s\<lparr> arrays := arrays s @ [drop startIdx (capturedQueries s)] \<rparr>)"

text \<open>The constants of one closure of \<open>createDryRun\<close>.\<close>

record dryrun =
  originals_query :: fn_ref
  originals_logMigration :: fn_ref
  originals_unlogMigration :: fn_ref
  tableName :: string
  verbose :: bool

record options =
  opt_sequelize :: bool
  opt_migrationsPath :: "string option"
  opt_tableName :: "string option"
  opt_verbose :: "bool option"

text \<open>
  \<^verbatim>\<open>
  const { sequelize, migrationsPath, tableName = "SequelizeMeta", verbose = false,
          logger = console } = options;
  if (!sequelize) { throw new Error("sequelize instance is required"); }
  if (!migrationsPath) { throw new Error("migrationsPath is required"); }
  const originals = {
    query: sequelize.query.bind(sequelize),
    logMigration: SequelizeStorage.prototype.logMigration,
    unlogMigration: SequelizeStorage.prototype.unlogMigration,
  };
  const capturedQueries = [];\<close>
  There is one database handle, so \<open>opt_sequelize\<close> only says whether it was given.
  An absent path and the empty string are both falsy. \<open>bind\<close> returns a new function
  object; the two storage methods are stored as they are.
\<close>

definition createDryRun :: "options \<Rightarrow> state \<Rightarrow> (js_error + dryrun) \<times> state" where
  "createDryRun opts s =
     (if \<not> opt_sequelize opts then (Inl (Error ''sequelize instance is required''), s)
      else if opt_migrationsPath opts = None \<or> opt_migrationsPath opts = Some []
        then (Inl (Error ''migrationsPath is required''), s)
      else
        (Inr \<lparr> originals_query = next_ref s,
               originals_logMigration = storage_logMigration s,
               originals_unlogMigration = storage_unlogMigration s,
               tableName = (case opt_tableName opts of None \<Rightarrow> ''SequelizeMeta'' | Some t \<Rightarrow> t),
               verbose = (case opt_verbose opts of None \<Rightarrow> False | Some v \<Rightarrow> v) \<rparr>,
         s\<lparr> next_ref := Suc (next_ref s), capturedQueries := [] \<rparr>))"

subsection \<open>The interception adapter\<close>

text \<open>
  \<open>originals.query(sql, options)\<close>: the call reaches the real database, which records
  it and answers.
\<close>

definition originals_query_call ::
  "'r database \<Rightarrow> sql_payload \<Rightarrow> query_options \<Rightarrow> state \<Rightarrow> (js_error + 'r query_result) \<times> state"
where
  "originals_query_call db sql opts s =
     (let calls = db_calls s @ [(sql, opts)] in
        (case db calls of Inl e \<Rightarrow> Inl e | Inr v \<Rightarrow> Inr (FromDatabase v),
         s\<lparr> db_calls := calls \<rparr>))"

text \<open>
  \<^verbatim>\<open>
  const setupStoragePatch = () => {
    SequelizeStorage.prototype.logMigration = async () => {};
    SequelizeStorage.prototype.unlogMigration = async () => {};
  };
  const setupQueryPatch = () => { sequelize.query = async (sql, options = {}) => {...}; };
  const restore = () => {
    sequelize.query = originals.query;
    SequelizeStorage.prototype.logMigration = originals.logMigration;
    SequelizeStorage.prototype.unlogMigration = originals.unlogMigration;
  };\<close>
\<close>

definition setupStoragePatch :: "state \<Rightarrow> state" where
  "setupStoragePatch s =
     s\<lparr> storage_logMigration := next_ref s,
        storage_unlogMigration := Suc (next_ref s),
        next_ref := Suc (Suc (next_ref s)) \<rparr>"

definition setupQueryPatch :: "state \<Rightarrow> state" where
  "setupQueryPatch s = s\<lparr> sequelize_query := next_ref s, next_ref := Suc (next_ref s) \<rparr>"

definition restore :: "dryrun \<Rightarrow> state \<Rightarrow> state" where
  "restore ex s =
     s\<lparr> sequelize_query := originals_query ex,
        storage_logMigration := originals_logMigration ex,
        storage_unlogMigration := originals_unlogMigration ex \<rparr>"

text \<open>
  The function that \<open>setupQueryPatch\<close> installs:
  \<^verbatim>\<open>
  async (sql, options = {}) => {
    if (typeof sql !== "string") return originals.query(sql, options);
    if (shouldPassThrough(sql)) return originals.query(sql, options);
    capturedQueries.push(sql);
    const { type } = options;
    if (type === sequelize.constructor.QueryTypes.SELECT)
      return originals.query(sql, options);
    if ([QueryTypes.INSERT, QueryTypes.UPDATE, QueryTypes.DELETE].includes(type)) {
      return [0, 0];
    }
    return [[], {}];
  }\<close>
\<close>

text \<open>The default \<open>options = {}\<close> of the parameter list, and \<open>options.type\<close>.\<close>

definition default_options :: "query_options \<Rightarrow> query_options" where
  "default_options opts =
     (case opts of OptionsUndefined \<Rightarrow> OptionsObject None | OptionsObject t \<Rightarrow> opts)"

definition options_type :: "query_options \<Rightarrow> string option" where
  "options_type opts = (case opts of OptionsUndefined \<Rightarrow> None | OptionsObject t \<Rightarrow> t)"

definition query_patch ::
  "dryrun \<Rightarrow> 'r database \<Rightarrow> sql_payload \<Rightarrow> query_options \<Rightarrow> state
     \<Rightarrow> (js_error + 'r query_result) \<times> state"
where
  "query_patch ex db sql options0 s =
     (let opts = default_options options0 in
      case sql of
        SqlOther v \<Rightarrow> originals_query_call db sql opts s
      | SqlText text \<Rightarrow>
          if shouldPassThrough (tableName ex) text then originals_query_call db sql opts s
          else
            let s1 = s\<lparr> capturedQueries := capturedQueries s @ [text] \<rparr>;
                type = options_type opts
            in if type = Some QueryTypes_SELECT then originals_query_call db sql opts s1
               else if type \<in> set [Some QueryTypes_INSERT, Some QueryTypes_UPDATE,
                                       Some QueryTypes_DELETE]
                 then (Inr EmptyEffect, s1)
               else (Inr EmptyResultSet, s1))"

subsection \<open>The external collaborators\<close>

text \<open>
  The migration runner's \<open>pending()\<close> and \<open>executed()\<close>, a migration module's
  \<open>up\<close> and \<open>down\<close>, and the caller's \<open>onMigration\<close> are code of other parties.
  Each is a procedure that returns, throws, or calls \<open>sequelize.query\<close> and goes on
  with what the call gave (a result, or the error it threw). While a run is in progress
  the function in that slot is the one \<open>setupQueryPatch\<close> installed.

  \<open>onMigration\<close> is handed the array \<open>queries\<close> itself, so a procedure can also read
  an array and replace its contents. The callback may keep the reference or share it
  with other code of the host application, so a write may come from any procedure that
  runs later, and every procedure is given both steps. The call of \<open>onMigration\<close> is
  not awaited: what an asynchronous callback does to the array after its first
  \<open>await\<close>, before the caller looks at the results, counts as done by the callback.
\<close>

datatype ('r, 'a) proc =
    Return 'a
  | Throw js_error
  | Query sql_payload query_options "js_error + 'r query_result \<Rightarrow> ('r, 'a) proc"
  | ArrayRead array_ref "string list \<Rightarrow> ('r, 'a) proc"
  | ArrayWrite array_ref "string list" "('r, 'a) proc"

primrec run_proc ::
  "dryrun \<Rightarrow> 'r database \<Rightarrow> ('r, 'a) proc \<Rightarrow> state \<Rightarrow> (js_error + 'a) \<times> state"
where
  "run_proc ex db (Return v) s = (Inr v, s)"
| "run_proc ex db (Throw e) s = (Inl e, s)"
| "run_proc ex db (Query sql opts k) s =
     (case query_patch ex db sql opts s of (r, s1) \<Rightarrow> run_proc ex db (k r) s1)"
| "run_proc ex db (ArrayRead a k) s = run_proc ex db (k (array_at s a)) s"
| "run_proc ex db (ArrayWrite a xs p) s = run_proc ex db p (array_write a xs s)"

record 'r migration_module =
  mod_up :: "('r, unit) proc"
  mod_down :: "('r, unit) proc"

text \<open>
  \<open>require\<close> maps a migration's name to the module at the path resolved from
  \<open>migrationsPath\<close>, or throws.
\<close>

record 'r env =
  database :: "'r database"
  umzug_pending :: "('r, string list) proc"
  umzug_executed :: "('r, string list) proc"
  require :: "string \<Rightarrow> js_error + 'r migration_module"

text \<open>\<open>onMigration(name, queries)\<close>: the second argument is the array's reference.\<close>

type_synonym 'r callback = "string \<Rightarrow> array_ref \<Rightarrow> ('r, unit) proc"

text \<open>
  The object \<open>{ name, direction, sql: queries, output }\<close> that a run builds: its
  \<open>sql\<close> is the reference of the array, its \<open>output\<close> a string. What the caller
  finds in it when the run returns is a \<open>MigrationResult\<close>: the same strings, and the
  contents the array has at that moment.
\<close>

record result_object =
  obj_name :: string
  obj_direction :: string
  obj_sql :: array_ref
  obj_output :: string

record MigrationResult =
  name :: string
  direction :: string
  sql :: "string list"
  output_text :: string

definition read_result :: "state \<Rightarrow> result_object \<Rightarrow> MigrationResult" where
  "read_result s r =
     \<lparr> name = obj_name r, direction = obj_direction r, sql = array_at s (obj_sql r),
       output_text = obj_output r \<rparr>"

subsection \<open>The orchestrator\<close>

definition check_mark :: string where
  "check_mark = [CHR 0xE2, CHR 0x9C, CHR 0x93]"

definition em_dash :: string where
  "em_dash = [CHR 0xE2, CHR 0x80, CHR 0x94]"

definition dry_run_completed :: string where
  "dry_run_completed =
     ''\<newline>'' @ check_mark @ '' Dry run completed '' @ em_dash @ '' NO database changes made''"

text \<open>\<open>if (verbose) logger.log(msg)\<close>\<close>

definition logger_log :: "dryrun \<Rightarrow> string \<Rightarrow> state \<Rightarrow> state" where
  "logger_log ex msg s = (if verbose ex then s\<lparr> logged := logged s @ [msg] \<rparr> else s)"

text \<open>
  The two bookkeeping statements:
  \<^verbatim>\<open>`INSERT INTO \`${tableName}\` (\`name\`) VALUES ('${migration.name}');`\<close> and
  \<^verbatim>\<open>`DELETE FROM \`${tableName}\` WHERE \`name\` = '${lastMigration.name}';`\<close>
\<close>

definition insert_record_statement :: "string \<Rightarrow> string \<Rightarrow> string" where
  "insert_record_statement tn mname =
     ''INSERT INTO `'' @ tn @ ''` (`name`) VALUES ('' @ [CHR 0x27] @ mname @ [CHR 0x27] @ '');''"

definition delete_record_statement :: "string \<Rightarrow> string \<Rightarrow> string" where
  "delete_record_statement tn mname =
     ''DELETE FROM `'' @ tn @ ''` WHERE `name` = '' @ [CHR 0x27] @ mname @ [CHR 0x27] @ '';''"

text \<open>\<open>if (onMigration) onMigration(name, queries)\<close>\<close>

definition run_callback ::
  "dryrun \<Rightarrow> 'r database \<Rightarrow> 'r callback option \<Rightarrow> string \<Rightarrow> array_ref \<Rightarrow> state
     \<Rightarrow> (js_error + unit) \<times> state"
where
  "run_callback ex db onMigration mname queries s =
     (case onMigration of
        None \<Rightarrow> (Inr (), s)
      | Some cb \<Rightarrow> run_proc ex db (cb mname queries) s)"

text \<open>
  The body of the loop of \<open>up\<close>, for one pending migration:
  \<^verbatim>\<open>
  const startIdx = capturedQueries.length;
  const mod = require(migrationPath);
  await mod.up(sequelize.getQueryInterface(), sequelize.constructor);
  capturedQueries.push(`INSERT INTO ...`);
  const queries = capturedQueries.slice(startIdx);
  const output = formatQueries(migration.name, "up", queries);
  results.push({ name: migration.name, direction: "up", sql: queries, output });
  if (verbose) logger.log(output);
  if (onMigration) onMigration(migration.name, queries);\<close>
  It gives the object pushed to \<open>results\<close>, or the thrown error.
\<close>

definition up_migration ::
  "dryrun \<Rightarrow> 'r env \<Rightarrow> 'r callback option \<Rightarrow> string \<Rightarrow> state
     \<Rightarrow> (js_error + result_object) \<times> state"
where
  "up_migration ex env onMigration mname s =
     (let startIdx = length (capturedQueries s) in
      case require env mname of
        Inl e \<Rightarrow> (Inl e, s)
      | Inr m \<Rightarrow>
          (case run_proc ex (database env) (mod_up m) s of
             (Inl e, s1) \<Rightarrow> (Inl e, s1)
           | (Inr u, s1) \<Rightarrow>
               let pushed = s1\<lparr> capturedQueries :=
                             capturedQueries s1 @ [insert_record_statement (tableName ex) mname] \<rparr>;
                   (queries, s2) = slice startIdx pushed;
                   out = formatQueries mname ''up'' (array_at s2 queries);
                   result = \<lparr> obj_name = mname, obj_direction = ''up'', obj_sql = queries,
                              obj_output = out \<rparr>;
                   s3 = logger_log ex out s2
               in (case run_callback ex (database env) onMigration mname queries s3 of
                     (Inl e, s4) \<Rightarrow> (Inl e, s4)
                   | (Inr u, s4) \<Rightarrow> (Inr result, s4))))"

text \<open>\<open>for (const migration of pending) { ... }\<close>, with the array \<open>results\<close>.\<close>

fun up_loop ::
  "dryrun \<Rightarrow> 'r env \<Rightarrow> 'r callback option \<Rightarrow> string list \<Rightarrow> result_object list \<Rightarrow> state
     \<Rightarrow> (js_error + result_object list) \<times> state"
where
  "up_loop ex env onMigration [] results s = (Inr results, s)"
| "up_loop ex env onMigration (mname # rest) results s =
     (case up_migration ex env onMigration mname s of
        (Inl e, s1) \<Rightarrow> (Inl e, s1)
      | (Inr r, s1) \<Rightarrow> up_loop ex env onMigration rest (results @ [r]) s1)"

text \<open>
  \<^verbatim>\<open>
  if (verbose) {
    logger.log(`Found ${pending.length} pending migration(s):`);
    pending.forEach((m, i) => logger.log(`  ${i + 1}. ${m.name}`));
  }\<close>
\<close>

definition log_pending :: "dryrun \<Rightarrow> string list \<Rightarrow> state \<Rightarrow> state" where
  "log_pending ex pending s =
     foldl (\<lambda>st (i, m). logger_log ex (''  '' @ string_of_nat (i + 1) @ ''. '' @ m) st)
       (logger_log ex
          (''Found '' @ string_of_nat (length pending) @ '' pending migration(s):'') s)
       (enumerate 0 pending)"

text \<open>
  The \<open>try\<close> block of \<open>up\<close>, from the two setup calls to its end (or to the
  \<open>return results\<close> taken when nothing is pending).
\<close>

definition up_try ::
  "dryrun \<Rightarrow> 'r env \<Rightarrow> 'r callback option \<Rightarrow> state
     \<Rightarrow> (js_error + result_object list) \<times> state"
where
  "up_try ex env onMigration s =
     (let s0 = setupQueryPatch (setupStoragePatch s) in
      case run_proc ex (database env) (umzug_pending env) s0 of
        (Inl e, s1) \<Rightarrow> (Inl e, s1)
      | (Inr pending, s1) \<Rightarrow>
          if length pending = 0
            then (Inr [], logger_log ex (check_mark @ '' No pending migrations'') s1)
          else
            let s3 = log_pending ex pending s1
            in (case up_loop ex env onMigration pending [] s3 of
                  (Inl e, s4) \<Rightarrow> (Inl e, s4)
                | (Inr results, s4) \<Rightarrow>
                    (Inr results,
                     logger_log ex dry_run_completed s4)))"

text \<open>
  \<open>try { ... } finally { restore(); }\<close>: the outcome of the block, after \<open>restore\<close>.
  The caller receives the result objects and finds in each what its array holds
  then.
\<close>

definition up ::
  "dryrun \<Rightarrow> 'r env \<Rightarrow> 'r callback option \<Rightarrow> state
     \<Rightarrow> (js_error + MigrationResult list) \<times> state"
where
  "up ex env onMigration s =
     (case up_try ex env onMigration s of
        (Inl e, s1) \<Rightarrow> (Inl e, restore ex s1)
      | (Inr results, s1) \<Rightarrow> (Inr (map (read_result s1) results), restore ex s1))"

text \<open>
  \<open>down\<close>: the same shape, for the last element of \<open>umzug.executed()\<close>;
  \<open>None\<close> is \<open>null\<close>.
  \<^verbatim>\<open>
  const executed = await umzug.executed();
  if (!executed.length) { ...; return null; }
  const lastMigration = executed[executed.length - 1];
  const startIdx = capturedQueries.length;
  const mod = require(migrationPath);
  await mod.down(sequelize.getQueryInterface(), sequelize.constructor);
  capturedQueries.push(`DELETE FROM ...`);
  const queries = capturedQueries.slice(startIdx);
  const output = formatQueries(lastMigration.name, "down", queries);
  result = { name: lastMigration.name, direction: "down", sql: queries, output };\<close>
\<close>

definition down_migration ::
  "dryrun \<Rightarrow> 'r env \<Rightarrow> 'r callback option \<Rightarrow> string \<Rightarrow> state
     \<Rightarrow> (js_error + result_object) \<times> state"
where
  "down_migration ex env onMigration mname s =
     (let startIdx = length (capturedQueries s) in
      case require env mname of
        Inl e \<Rightarrow> (Inl e, s)
      | Inr m \<Rightarrow>
          (case run_proc ex (database env) (mod_down m) s of
             (Inl e, s1) \<Rightarrow> (Inl e, s1)
           | (Inr u, s1) \<Rightarrow>
               let pushed = s1\<lparr> capturedQueries :=
                             capturedQueries s1 @ [delete_record_statement (tableName ex) mname] \<rparr>;
                   (queries, s2) = slice startIdx pushed;
                   out = formatQueries mname ''down'' (array_at s2 queries);
                   result = \<lparr> obj_name = mname, obj_direction = ''down'', obj_sql = queries,
                              obj_output = out \<rparr>;
                   s3 = logger_log ex out s2
               in (case run_callback ex (database env) onMigration mname queries s3 of
                     (Inl e, s4) \<Rightarrow> (Inl e, s4)
                   | (Inr u, s4) \<Rightarrow> (Inr result, s4))))"

text \<open>\<open>if (verbose) logger.log(`Last executed migration: ${lastMigration.name}\n`)\<close>\<close>

definition log_last_executed :: "dryrun \<Rightarrow> string \<Rightarrow> state \<Rightarrow> state" where
  "log_last_executed ex lastMigration s =
     logger_log ex (''Last executed migration: '' @ lastMigration @ ''\<newline>'') s"

definition down_try ::
  "dryrun \<Rightarrow> 'r env \<Rightarrow> 'r callback option \<Rightarrow> state
     \<Rightarrow> (js_error + result_object option) \<times> state"
where
  "down_try ex env onMigration s =
     (let s0 = setupQueryPatch (setupStoragePatch s) in
      case run_proc ex (database env) (umzug_executed env) s0 of
        (Inl e, s1) \<Rightarrow> (Inl e, s1)
      | (Inr executed, s1) \<Rightarrow>
          if length executed = 0
            then (Inr None, logger_log ex (check_mark @ '' No migrations to rollback'') s1)
          else
            let lastMigration = executed ! (length executed - 1);
                s2 = log_last_executed ex lastMigration s1
            in (case down_migration ex env onMigration lastMigration s2 of
                  (Inl e, s3) \<Rightarrow> (Inl e, s3)
                | (Inr result, s3) \<Rightarrow>
                    (Inr (Some result),
                     logger_log ex dry_run_completed s3)))"

definition down ::
  "dryrun \<Rightarrow> 'r env \<Rightarrow> 'r callback option \<Rightarrow> state
     \<Rightarrow> (js_error + MigrationResult option) \<times> state"
where
  "down ex env onMigration s =
     (case down_try ex env onMigration s of
        (Inl e, s1) \<Rightarrow> (Inl e, restore ex s1)
      | (Inr result, s1) \<Rightarrow> (Inr (map_option (read_result s1) result), restore ex s1))"

subsection \<open>Notions used to state the properties\<close>

text \<open>
  The three slots a run replaces, and the three references an executor stored when it
  was created.
\<close>

definition patched_slots :: "state \<Rightarrow> fn_ref \<times> fn_ref \<times> fn_ref" where
  "patched_slots s = (sequelize_query s, storage_logMigration s, storage_unlogMigration s)"

definition originals :: "dryrun \<Rightarrow> fn_ref \<times> fn_ref \<times> fn_ref" where
  "originals ex = (originals_query ex, originals_logMigration ex, originals_unlogMigration ex)"

text \<open>The state a run starts the runner's discovery in: both patches installed.\<close>

definition installed :: "state \<Rightarrow> state" where
  "installed s = setupQueryPatch (setupStoragePatch s)"

text \<open>
  The statements a procedure adds to the buffer when it runs from state \<open>s\<close>: the
  ones it submitted and the classifier captured, in the order submitted.
\<close>

definition captured_by :: "dryrun \<Rightarrow> 'r database \<Rightarrow> ('r, 'a) proc \<Rightarrow> state \<Rightarrow> string list" where
  "captured_by ex db p s =
     drop (length (capturedQueries s)) (capturedQueries (snd (run_proc ex db p s)))"

text \<open>
  A procedure that never writes to an array, and a system in which no migration
  procedure and no callback does: then nothing but the run itself touches the arrays
  of its results. A run without a callback hands no array to anyone.
\<close>

primrec write_free :: "('r, 'a) proc \<Rightarrow> bool" where
  "write_free (Return v) = True"
| "write_free (Throw e) = True"
| "write_free (Query stmt opts k) = (\<forall>r. write_free (k r))"
| "write_free (ArrayRead a k) = (\<forall>xs. write_free (k xs))"
| "write_free (ArrayWrite a xs p) = False"

definition module_write_free :: "js_error + 'r migration_module \<Rightarrow> bool" where
  "module_write_free loaded =
     (case loaded of Inl e \<Rightarrow> True | Inr m \<Rightarrow> write_free (mod_up m) \<and> write_free (mod_down m))"

definition callback_write_free :: "'r callback option \<Rightarrow> bool" where
  "callback_write_free onMigration =
     (case onMigration of None \<Rightarrow> True | Some cb \<Rightarrow> \<forall>n a. write_free (cb n a))"

definition arrays_untouched :: "'r env \<Rightarrow> 'r callback option \<Rightarrow> bool" where
  "arrays_untouched env onMigration =
     ((\<forall>n. module_write_free (require env n)) \<and> callback_write_free onMigration)"

text \<open>The same state with other statements in the buffer ahead of its own.\<close>

definition with_earlier :: "string list \<Rightarrow> state \<Rightarrow> state" where
  "with_earlier earlier s = s\<lparr> capturedQueries := earlier @ capturedQueries s \<rparr>"

subsection \<open>Example inputs\<close>

text \<open>
  A process in which the handle's \<open>query\<close> and the two storage methods are the
  function objects 0, 1 and 2; an executor created there with the default table name;
  and the specification's example: one pending migration \<open>0001-create-users\<close> whose
  \<open>up\<close> issues one \<open>CREATE TABLE\<close> and whose \<open>down\<close> drops the table. The
  database answers every call that reaches it with the unit value.
\<close>

definition example_process :: state where
  "example_process =
     \<lparr> sequelize_query = 0, storage_logMigration = 1, storage_unlogMigration = 2,
       next_ref = 3, capturedQueries = [], db_calls = [], logged = [], arrays = [] \<rparr>"

definition example_options :: options where
  "example_options =
     \<lparr> opt_sequelize = True, opt_migrationsPath = Some ''migrations'',
       opt_tableName = None, opt_verbose = None \<rparr>"

definition example_dryrun :: dryrun where
  "example_dryrun =
     \<lparr> originals_query = 3, originals_logMigration = 1, originals_unlogMigration = 2,
       tableName = ''SequelizeMeta'', verbose = False \<rparr>"

definition example_created :: state where
  "example_created = example_process\<lparr> next_ref := 4 \<rparr>"

definition propagate :: "js_error + 'r query_result \<Rightarrow> ('r, unit) proc" where
  "propagate r = (case r of Inl e \<Rightarrow> Throw e | Inr v \<Rightarrow> Return ())"

definition create_users :: "(unit, unit) proc" where
  "create_users = Query (SqlText ''CREATE TABLE users (id INTEGER);'') OptionsUndefined propagate"

definition drop_users :: "(unit, unit) proc" where
  "drop_users = Query (SqlText ''DROP TABLE users;'') OptionsUndefined propagate"

definition example_require :: "string \<Rightarrow> js_error + unit migration_module" where
  "example_require n =
     (if n = ''0001-create-users'' then Inr \<lparr> mod_up = create_users, mod_down = drop_users \<rparr>
      else Inl (Error ''Cannot find module''))"

definition example_env :: "unit env" where
  "example_env =
     \<lparr> database = (\<lambda>calls. Inr ()),
       umzug_pending = Return [''0001-create-users''],
       umzug_executed = Return [],
       require = example_require \<rparr>"

text \<open>The same system after the migration has been applied for real.\<close>

definition example_env_applied :: "unit env" where
  "example_env_applied =
     example_env\<lparr> umzug_pending := Return [], umzug_executed := Return [''0001-create-users''] \<rparr>"

text \<open>A system whose only pending migration throws after its first statement.\<close>

definition failing_up :: "(unit, unit) proc" where
  "failing_up =
     Query (SqlText ''CREATE TABLE users (id INTEGER);'') OptionsUndefined
       (\<lambda>r. Throw (Error ''boom''))"

definition example_env_failing :: "unit env" where
  "example_env_failing =
     example_env\<lparr> require := (\<lambda>n. Inr \<lparr> mod_up = failing_up, mod_down = failing_up \<rparr>),
                  umzug_executed := Return [''0001-create-users''] \<rparr>"

text \<open>
  A callback that pushes one more string to the array it is given:
  \<^verbatim>\<open>(name, queries) => { queries.push("EXTRA"); }\<close>, one that only looks at the
  array, and a system in which two migrations have been executed.
\<close>

definition pushing_callback :: "unit callback" where
  "pushing_callback n a = ArrayRead a (\<lambda>xs. ArrayWrite a (xs @ [''EXTRA'']) (Return ()))"

definition reading_callback :: "unit callback" where
  "reading_callback n a = ArrayRead a (\<lambda>xs. Return ())"

definition add_email :: "(unit, unit) proc" where
  "add_email =
     Query (SqlText ''ALTER TABLE users ADD COLUMN email TEXT;'') OptionsUndefined propagate"

definition drop_email :: "(unit, unit) proc" where
  "drop_email =
     Query (SqlText ''ALTER TABLE users DROP COLUMN email;'') OptionsUndefined propagate"

definition example_require_two :: "string \<Rightarrow> js_error + unit migration_module" where
  "example_require_two n =
     (if n = ''0001-create-users'' then Inr \<lparr> mod_up = create_users, mod_down = drop_users \<rparr>
      else if n = ''0002-add-email'' then Inr \<lparr> mod_up = add_email, mod_down = drop_email \<rparr>
      else Inl (Error ''Cannot find module''))"

definition example_env_two_applied :: "unit env" where
  "example_env_two_applied =
     \<lparr> database = (\<lambda>calls. Inr ()),
       umzug_pending = Return [],
       umzug_executed = Return [''0001-create-users'', ''0002-add-email''],
       require = example_require_two \<rparr>"

section \<open>Properties\<close>

subsection \<open>Strings and lists\<close>

lemma toLowerCase_char_idem: "toLowerCase_char (toLowerCase_char c) = toLowerCase_char c"
  by (simp add: toLowerCase_char_def)

lemma toLowerCase_idem: "toLowerCase (toLowerCase s) = toLowerCase s"
  by (simp add: toLowerCase_def toLowerCase_char_idem)

lemma str_includes_sublist: "str_includes s p = sublist p s"
  by (induction s) (auto simp: sublist_Cons_right)

lemma foldl_push_entries:
  "foldl (\<lambda>out (i, q). out @ [numbered_entry i q]) acc (enumerate n qs)
     = acc @ map (\<lambda>(i, q). numbered_entry i q) (enumerate n qs)"
  by (induction qs arbitrary: acc n) simp_all

lemma map_enumerate_nth:
  "map (\<lambda>(i, q). f i q) (enumerate 0 qs) = map (\<lambda>i. f i (qs ! i)) [0..<length qs]"
  by (rule nth_equalityI) (simp_all add: nth_enumerate_eq)

lemma join_Cons: "join sep (x # xs) = x @ concat (map (\<lambda>y. sep @ y) xs)"
  by (induction xs arbitrary: x) simp_all

lemma join_append_lines:
  "xs \<noteq> [] \<Longrightarrow> join sep (xs @ ys) = join sep xs @ concat (map (\<lambda>y. sep @ y) ys)"
  by (cases xs) (simp_all add: join_Cons)

lemma formatQueries_header_nonempty: "formatQueries_header n d \<noteq> []"
  by (simp add: formatQueries_header_def)

subsection \<open>The classifier\<close>

text \<open>
  C2, as the claim states it, fails: a statement that contains \<open>information_schema\<close>
  passes through although it neither begins with an introspection keyword nor is a
  \<open>select\<close> that mentions the tracking table. The statement below drops a table and
  is let through to the database.
\<close>

theorem classifier_information_schema_counterexample:
  "shouldPassThrough ''SequelizeMeta'' ''DROP TABLE information_schema_cache''
   \<and> \<not> spec_passes_through ''SequelizeMeta'' ''DROP TABLE information_schema_cache''"
  by code_simp

text \<open>
  C2, amended: a statement passes through exactly when it begins (letters compared
  without regard to case) with \<open>pragma\<close>, \<open>show\<close>, \<open>describe\<close> or \<open>select\<close>,
  whatever the tracking table is called, or its lowercase form is a \<open>select\<close> that
  mentions the lowercased tracking-table name, or its lowercase form contains
  \<open>information_schema\<close> anywhere; every other statement is captured.
\<close>

theorem shouldPassThrough_cases:
  "shouldPassThrough tn stmt =
     (spec_passes_through tn stmt \<or> str_includes (toLowerCase stmt) ''information_schema'')"
  by (auto simp add: shouldPassThrough_def METADATA_QUERIES_test_def spec_passes_through_def
      begins_with_introspection_keyword_def introspection_keywords_def toLowerCase_idem Let_def)

theorem shouldPassThrough_cases_witness:
  "shouldPassThrough ''SequelizeMeta'' ''PRAGMA table_info(`users`);''
   \<and> shouldPassThrough ''Migrations'' ''Select name from `migrations`''
   \<and> shouldPassThrough ''SequelizeMeta'' ''DROP TABLE information_schema_cache''
   \<and> shouldPassThrough ''SequelizeMeta'' ''CREATE TABLE users (id INTEGER);'' = False"
proof -
  have a: "spec_passes_through ''SequelizeMeta'' ''PRAGMA table_info(`users`);''"
    by code_simp
  have b: "spec_passes_through ''Migrations'' ''Select name from `migrations`''"
    by code_simp
  have c: "str_includes (toLowerCase ''DROP TABLE information_schema_cache'') ''information_schema''"
    by code_simp
  have d: "\<not> spec_passes_through ''SequelizeMeta'' ''CREATE TABLE users (id INTEGER);''"
    by code_simp
  have e: "\<not> str_includes (toLowerCase ''CREATE TABLE users (id INTEGER);'') ''information_schema''"
    by code_simp
  show ?thesis
    unfolding shouldPassThrough_cases using a b c d e by blast
qed

subsection \<open>The formatter\<close>

text \<open>
  C9: \<open>formatQueries\<close> is a function of its three arguments alone. On an empty list
  the lines are the three header lines and the marker \<open>(No SQL generated)\<close>, and no
  numbered entry; on a non-empty list they are the header lines followed by one entry
  for each statement, the entry at position \<open>i\<close> (from 0) being \<open>i + 1\<close>, a dot, a
  space and the statement at position \<open>i\<close>: every statement once, in the order given.
  The returned text is the lines joined by newlines.
\<close>

theorem formatQueries_numbering:
  "formatQueries_output n d [] = formatQueries_header n d @ [''(No SQL generated)\<newline>'']
   \<and> formatQueries_output n d (q # qs) =
       formatQueries_header n d
         @ map (\<lambda>i. string_of_nat (i + 1) @ ''. '' @ (q # qs) ! i @ ''\<newline>'')
             [0..<length (q # qs)]
   \<and> formatQueries n d stmts =
       join ''\<newline>'' (formatQueries_header n d)
         @ (if stmts = [] then ''\<newline>(No SQL generated)\<newline>''
            else concat (map (\<lambda>i. ''\<newline>'' @ string_of_nat (i + 1) @ ''. '' @ stmts ! i
                                   @ ''\<newline>'')
                           [0..<length stmts]))"
proof -
  have lines: "formatQueries_output n d xs =
      formatQueries_header n d
        @ (if xs = [] then [''(No SQL generated)\<newline>'']
           else map (\<lambda>i. string_of_nat (i + 1) @ ''. '' @ xs ! i @ ''\<newline>'')
                  [0..<length xs])" for xs
  proof -
    have "map (\<lambda>(i, q). numbered_entry i q) (enumerate 0 xs)
        = map (\<lambda>i. string_of_nat (i + 1) @ ''. '' @ xs ! i @ ''\<newline>'') [0..<length xs]"
      unfolding map_enumerate_nth by (simp add: numbered_entry_def)
    then show ?thesis
      by (simp add: formatQueries_output_def foldl_push_entries)
  qed
  have rendered: "formatQueries n d stmts =
       join ''\<newline>'' (formatQueries_header n d)
         @ (if stmts = [] then ''\<newline>(No SQL generated)\<newline>''
            else concat (map (\<lambda>i. ''\<newline>'' @ string_of_nat (i + 1) @ ''. '' @ stmts ! i
                                   @ ''\<newline>'')
                           [0..<length stmts]))"
    unfolding formatQueries_def lines
    by (simp add: join_append_lines formatQueries_header_nonempty map_concat comp_def
        del: upt_Suc)
  from lines [of "[]"] lines [of "q # qs"] rendered show ?thesis by simp
qed

theorem formatQueries_numbering_witness:
  "formatQueries_output ''0001-create-users'' ''up'' [''b'', ''a'', ''b''] =
     formatQueries_header ''0001-create-users'' ''up''
       @ [''1. b\<newline>'', ''2. a\<newline>'', ''3. b\<newline>'']"
proof -
  have entries:
    "map (\<lambda>i. string_of_nat (i + 1) @ ''. '' @ [''b'', ''a'', ''b''] ! i @ ''\<newline>'')
       [0..<length [''b'', ''a'', ''b'']]
     = [''1. b\<newline>'', ''2. a\<newline>'', ''3. b\<newline>'']"
    by code_simp
  have "formatQueries_output ''0001-create-users'' ''up'' [''b'', ''a'', ''b''] =
       formatQueries_header ''0001-create-users'' ''up''
         @ map (\<lambda>i. string_of_nat (i + 1) @ ''. '' @ [''b'', ''a'', ''b''] ! i @ ''\<newline>'')
             [0..<length [''b'', ''a'', ''b'']]"
    using formatQueries_numbering
      [of "''0001-create-users''" "''up''" "''b''" "[''a'', ''b'']" "[]"]
    by blast
  then show ?thesis by (simp only: entries)
qed

subsection \<open>What a call of the patched entry point and a procedure do to the state\<close>

lemma array_write_fields:
  "capturedQueries (array_write a xs s) = capturedQueries s"
  "length (arrays (array_write a xs s)) = length (arrays s)"
  by (simp_all add: array_write_def)

lemma query_patch_buffer:
  "\<exists>d. capturedQueries (snd (query_patch ex db p opts s)) = capturedQueries s @ d"
  by (cases p) (simp_all add: query_patch_def originals_query_call_def Let_def)

lemma query_patch_arrays: "arrays (snd (query_patch ex db p opts s)) = arrays s"
  by (cases p) (simp_all add: query_patch_def originals_query_call_def Let_def)

lemma run_proc_buffer:
  "\<exists>d. capturedQueries (snd (run_proc ex db p s)) = capturedQueries s @ d"
proof (induction p arbitrary: s)
  case (Return v)
  then show ?case by simp
next
  case (Throw e)
  then show ?case by simp
next
  case (Query p opts k)
  obtain r s1 where q: "query_patch ex db p opts s = (r, s1)"
    by (cases "query_patch ex db p opts s")
  from query_patch_buffer [of ex db p opts s] q
  obtain d1 where d1: "capturedQueries s1 = capturedQueries s @ d1" by auto
  from Query.IH [of "k r" s1] obtain d2
    where "capturedQueries (snd (run_proc ex db (k r) s1)) = capturedQueries s1 @ d2"
    by auto
  with d1 q show ?case by simp
next
  case (ArrayRead a k)
  from ArrayRead.IH [of "k (array_at s a)" s] show ?case by simp
next
  case (ArrayWrite a xs p)
  from ArrayWrite.IH [of "array_write a xs s"] show ?case
    by (simp add: array_write_fields)
qed

lemma run_proc_write_free:
  "write_free p \<Longrightarrow> arrays (snd (run_proc ex db p s)) = arrays s"
proof (induction p arbitrary: s)
  case (Query p opts k)
  obtain r s1 where q: "query_patch ex db p opts s = (r, s1)"
    by (cases "query_patch ex db p opts s")
  with query_patch_arrays [of ex db p opts s] have "arrays s1 = arrays s" by simp
  moreover from Query.prems have "write_free (k r)" by simp
  with Query.IH [of "k r" s1] have "arrays (snd (run_proc ex db (k r) s1)) = arrays s1"
    by simp
  ultimately show ?case using q by simp
next
  case (ArrayRead a k)
  from ArrayRead.prems have "write_free (k (array_at s a))" by simp
  with ArrayRead.IH [of "k (array_at s a)" s] show ?case by simp
qed simp_all

lemma array_at_with_earlier: "array_at (with_earlier pre s) a = array_at s a"
  by (simp add: array_at_def with_earlier_def)

lemma array_write_with_earlier:
  "array_write a xs (with_earlier pre s) = with_earlier pre (array_write a xs s)"
  by (simp add: array_write_def with_earlier_def)

lemma query_patch_with_earlier:
  "query_patch ex db p opts (with_earlier pre s) =
     (case query_patch ex db p opts s of (r, s') \<Rightarrow> (r, with_earlier pre s'))"
  by (cases p) (simp_all add: query_patch_def originals_query_call_def with_earlier_def Let_def)

lemma run_proc_with_earlier:
  "run_proc ex db p (with_earlier pre s) =
     (case run_proc ex db p s of (r, s') \<Rightarrow> (r, with_earlier pre s'))"
proof (induction p arbitrary: s)
  case (Query p opts k)
  then show ?case
    by (simp add: query_patch_with_earlier split: prod.splits)
next
  case (ArrayRead a k)
  then show ?case by (simp add: array_at_with_earlier)
next
  case (ArrayWrite a xs p)
  then show ?case by (simp add: array_write_with_earlier)
qed simp_all

subsection \<open>One migration, and the loop\<close>

lemma logger_log_fields:
  "arrays (logger_log ex msg s) = arrays s"
  "capturedQueries (logger_log ex msg s) = capturedQueries s"
  by (simp_all add: logger_log_def)

lemma array_at_logger_log: "array_at (logger_log ex msg s) a = array_at s a"
  by (simp add: array_at_def logger_log_fields)

lemma up_migration_run:
  assumes "require env m = Inr md"
    and "run_proc ex (database env) (mod_up md) s = (Inr u, s1)"
  shows "up_migration ex env cb m s =
     (case run_callback ex (database env) cb m (length (arrays s1))
             (logger_log ex
                (formatQueries m ''up''
                   (captured_by ex (database env) (mod_up md) s
                      @ [insert_record_statement (tableName ex) m]))
                (s1\<lparr> capturedQueries :=
                       capturedQueries s1 @ [insert_record_statement (tableName ex) m],
                     arrays := arrays s1
                       @ [captured_by ex (database env) (mod_up md) s
                            @ [insert_record_statement (tableName ex) m]] \<rparr>)) of
        (Inl e, s4) \<Rightarrow> (Inl e, s4)
      | (Inr v, s4) \<Rightarrow>
          (Inr \<lparr> obj_name = m, obj_direction = ''up'', obj_sql = length (arrays s1),
                 obj_output = formatQueries m ''up''
                   (captured_by ex (database env) (mod_up md) s
                      @ [insert_record_statement (tableName ex) m]) \<rparr>, s4))"
proof -
  from run_proc_buffer [of ex "database env" "mod_up md" s] assms(2)
  obtain d where d: "capturedQueries s1 = capturedQueries s @ d" by auto
  with assms(2) have c: "captured_by ex (database env) (mod_up md) s = d"
    by (simp add: captured_by_def)
  show ?thesis
    unfolding c using assms d
    by (simp add: up_migration_def slice_def array_at_def Let_def
        cong: prod.case_cong sum.case_cong)
qed

lemma down_migration_run:
  assumes "require env m = Inr md"
    and "run_proc ex (database env) (mod_down md) s = (Inr u, s1)"
  shows "down_migration ex env cb m s =
     (case run_callback ex (database env) cb m (length (arrays s1))
             (logger_log ex
                (formatQueries m ''down''
                   (captured_by ex (database env) (mod_down md) s
                      @ [delete_record_statement (tableName ex) m]))
                (s1\<lparr> capturedQueries :=
                       capturedQueries s1 @ [delete_record_statement (tableName ex) m],
                     arrays := arrays s1
                       @ [captured_by ex (database env) (mod_down md) s
                            @ [delete_record_statement (tableName ex) m]] \<rparr>)) of
        (Inl e, s4) \<Rightarrow> (Inl e, s4)
      | (Inr v, s4) \<Rightarrow>
          (Inr \<lparr> obj_name = m, obj_direction = ''down'', obj_sql = length (arrays s1),
                 obj_output = formatQueries m ''down''
                   (captured_by ex (database env) (mod_down md) s
                      @ [delete_record_statement (tableName ex) m]) \<rparr>, s4))"
proof -
  from run_proc_buffer [of ex "database env" "mod_down md" s] assms(2)
  obtain d where d: "capturedQueries s1 = capturedQueries s @ d" by auto
  with assms(2) have c: "captured_by ex (database env) (mod_down md) s = d"
    by (simp add: captured_by_def)
  show ?thesis
    unfolding c using assms d
    by (simp add: down_migration_def slice_def array_at_def Let_def
        cong: prod.case_cong sum.case_cong)
qed

lemma up_migration_require_throws:
  "require env m = Inl e \<Longrightarrow> up_migration ex env cb m s = (Inl e, s)"
  by (simp add: up_migration_def)

lemma up_migration_procedure_throws:
  "require env m = Inr md \<Longrightarrow> run_proc ex (database env) (mod_up md) s = (Inl e, s1)
     \<Longrightarrow> up_migration ex env cb m s = (Inl e, s1)"
  by (simp add: up_migration_def)

lemma down_migration_require_throws:
  "require env m = Inl e \<Longrightarrow> down_migration ex env cb m s = (Inl e, s)"
  by (simp add: down_migration_def)

lemma down_migration_procedure_throws:
  "require env m = Inr md \<Longrightarrow> run_proc ex (database env) (mod_down md) s = (Inl e, s1)
     \<Longrightarrow> down_migration ex env cb m s = (Inl e, s1)"
  by (simp add: down_migration_def)

text \<open>
  What the object of one migration holds, whatever the callback does: the name, the
  direction, and as \<open>output\<close> the rendering of the statements the procedure added to
  the buffer followed by the bookkeeping statement.
\<close>

lemma up_migration_result:
  assumes "up_migration ex env cb m s = (Inr r, s')"
  shows "\<exists>md. require env m = Inr md
           \<and> fst (run_proc ex (database env) (mod_up md) s) = Inr ()
           \<and> obj_name r = m \<and> obj_direction r = ''up''
           \<and> obj_output r = formatQueries m ''up''
                (captured_by ex (database env) (mod_up md) s
                   @ [insert_record_statement (tableName ex) m])"
proof (cases "require env m")
  case (Inl e)
  with assms show ?thesis by (simp add: up_migration_require_throws)
next
  case (Inr md)
  obtain v s1 where run: "run_proc ex (database env) (mod_up md) s = (v, s1)"
    by (cases "run_proc ex (database env) (mod_up md) s")
  show ?thesis
  proof (cases v)
    case (Inl e)
    with assms Inr run show ?thesis by (simp add: up_migration_procedure_throws)
  next
    case ok: (Inr u)
    let ?Q = "captured_by ex (database env) (mod_up md) s
                @ [insert_record_statement (tableName ex) m]"
    let ?s3 = "logger_log ex (formatQueries m ''up'' ?Q)
                (s1\<lparr> capturedQueries :=
                       capturedQueries s1 @ [insert_record_statement (tableName ex) m],
                     arrays := arrays s1 @ [?Q] \<rparr>)"
    obtain w s4 where cb: "run_callback ex (database env) cb m (length (arrays s1)) ?s3 = (w, s4)"
      by (cases "run_callback ex (database env) cb m (length (arrays s1)) ?s3")
    from up_migration_run [OF Inr run [unfolded ok], of cb] cb assms
    have "r = \<lparr> obj_name = m, obj_direction = ''up'', obj_sql = length (arrays s1),
                 obj_output = formatQueries m ''up'' ?Q \<rparr>"
      by (cases w) simp_all
    with Inr run ok show ?thesis by simp
  qed
qed

lemma down_migration_result:
  assumes "down_migration ex env cb m s = (Inr r, s')"
  shows "\<exists>md. require env m = Inr md
           \<and> fst (run_proc ex (database env) (mod_down md) s) = Inr ()
           \<and> obj_name r = m \<and> obj_direction r = ''down''
           \<and> obj_output r = formatQueries m ''down''
                (captured_by ex (database env) (mod_down md) s
                   @ [delete_record_statement (tableName ex) m])"
proof (cases "require env m")
  case (Inl e)
  with assms show ?thesis by (simp add: down_migration_require_throws)
next
  case (Inr md)
  obtain v s1 where run: "run_proc ex (database env) (mod_down md) s = (v, s1)"
    by (cases "run_proc ex (database env) (mod_down md) s")
  show ?thesis
  proof (cases v)
    case (Inl e)
    with assms Inr run show ?thesis by (simp add: down_migration_procedure_throws)
  next
    case ok: (Inr u)
    let ?Q = "captured_by ex (database env) (mod_down md) s
                @ [delete_record_statement (tableName ex) m]"
    let ?s3 = "logger_log ex (formatQueries m ''down'' ?Q)
                (s1\<lparr> capturedQueries :=
                       capturedQueries s1 @ [delete_record_statement (tableName ex) m],
                     arrays := arrays s1 @ [?Q] \<rparr>)"
    obtain w s4 where cb: "run_callback ex (database env) cb m (length (arrays s1)) ?s3 = (w, s4)"
      by (cases "run_callback ex (database env) cb m (length (arrays s1)) ?s3")
    from down_migration_run [OF Inr run [unfolded ok], of cb] cb assms
    have "r = \<lparr> obj_name = m, obj_direction = ''down'', obj_sql = length (arrays s1),
                 obj_output = formatQueries m ''down'' ?Q \<rparr>"
      by (cases w) simp_all
    with Inr run ok show ?thesis by simp
  qed
qed

text \<open>
  When no procedure writes to an array, the run of one migration adds exactly one array
  to the store, the one of its object, holding those statements.
\<close>

lemma run_callback_write_free:
  "callback_write_free cb \<Longrightarrow> arrays (snd (run_callback ex db cb m a s)) = arrays s"
  by (cases cb) (simp_all add: run_callback_def callback_write_free_def run_proc_write_free)

lemma up_migration_untouched:
  assumes "up_migration ex env cb m s = (Inr r, s')"
    and "module_write_free (require env m)" and cbf: "callback_write_free cb"
  shows "\<exists>md. require env m = Inr md
           \<and> obj_sql r = length (arrays s)
           \<and> arrays s' = arrays s
                @ [captured_by ex (database env) (mod_up md) s
                     @ [insert_record_statement (tableName ex) m]]"
proof (cases "require env m")
  case (Inl e)
  with assms show ?thesis by (simp add: up_migration_require_throws)
next
  case (Inr md)
  from assms(2) Inr have wf: "write_free (mod_up md)"
    by (simp add: module_write_free_def)
  obtain v s1 where run: "run_proc ex (database env) (mod_up md) s = (v, s1)"
    by (cases "run_proc ex (database env) (mod_up md) s")
  with run_proc_write_free [OF wf, of ex "database env" s] have a1: "arrays s1 = arrays s"
    by simp
  show ?thesis
  proof (cases v)
    case (Inl e)
    with assms Inr run show ?thesis by (simp add: up_migration_procedure_throws)
  next
    case ok: (Inr u)
    let ?Q = "captured_by ex (database env) (mod_up md) s
                @ [insert_record_statement (tableName ex) m]"
    let ?s3 = "logger_log ex (formatQueries m ''up'' ?Q)
                (s1\<lparr> capturedQueries :=
                       capturedQueries s1 @ [insert_record_statement (tableName ex) m],
                     arrays := arrays s1 @ [?Q] \<rparr>)"
    obtain w s4 where cb: "run_callback ex (database env) cb m (length (arrays s1)) ?s3 = (w, s4)"
      by (cases "run_callback ex (database env) cb m (length (arrays s1)) ?s3")
    with run_callback_write_free [OF cbf, of ex "database env" m "length (arrays s1)" ?s3]
    have a4: "arrays s4 = arrays s1 @ [?Q]" by (simp add: logger_log_fields)
    from up_migration_run [OF Inr run [unfolded ok], of cb] cb assms(1)
    have "r = \<lparr> obj_name = m, obj_direction = ''up'', obj_sql = length (arrays s1),
                 obj_output = formatQueries m ''up'' ?Q \<rparr> \<and> s' = s4"
      by (cases w) simp_all
    with Inr a1 a4 show ?thesis by simp
  qed
qed

lemma down_migration_untouched:
  assumes "down_migration ex env cb m s = (Inr r, s')"
    and "module_write_free (require env m)" and cbf: "callback_write_free cb"
  shows "\<exists>md. require env m = Inr md
           \<and> obj_sql r = length (arrays s)
           \<and> arrays s' = arrays s
                @ [captured_by ex (database env) (mod_down md) s
                     @ [delete_record_statement (tableName ex) m]]"
proof (cases "require env m")
  case (Inl e)
  with assms show ?thesis by (simp add: down_migration_require_throws)
next
  case (Inr md)
  from assms(2) Inr have wf: "write_free (mod_down md)"
    by (simp add: module_write_free_def)
  obtain v s1 where run: "run_proc ex (database env) (mod_down md) s = (v, s1)"
    by (cases "run_proc ex (database env) (mod_down md) s")
  with run_proc_write_free [OF wf, of ex "database env" s] have a1: "arrays s1 = arrays s"
    by simp
  show ?thesis
  proof (cases v)
    case (Inl e)
    with assms Inr run show ?thesis by (simp add: down_migration_procedure_throws)
  next
    case ok: (Inr u)
    let ?Q = "captured_by ex (database env) (mod_down md) s
                @ [delete_record_statement (tableName ex) m]"
    let ?s3 = "logger_log ex (formatQueries m ''down'' ?Q)
                (s1\<lparr> capturedQueries :=
                       capturedQueries s1 @ [delete_record_statement (tableName ex) m],
                     arrays := arrays s1 @ [?Q] \<rparr>)"
    obtain w s4 where cb: "run_callback ex (database env) cb m (length (arrays s1)) ?s3 = (w, s4)"
      by (cases "run_callback ex (database env) cb m (length (arrays s1)) ?s3")
    with run_callback_write_free [OF cbf, of ex "database env" m "length (arrays s1)" ?s3]
    have a4: "arrays s4 = arrays s1 @ [?Q]" by (simp add: logger_log_fields)
    from down_migration_run [OF Inr run [unfolded ok], of cb] cb assms(1)
    have "r = \<lparr> obj_name = m, obj_direction = ''down'', obj_sql = length (arrays s1),
                 obj_output = formatQueries m ''down'' ?Q \<rparr> \<and> s' = s4"
      by (cases w) simp_all
    with Inr a1 a4 show ?thesis by simp
  qed
qed

lemma up_loop_append:
  "up_loop ex env cb (xs @ ys) acc s =
     (case up_loop ex env cb xs acc s of
        (Inl e, s1) \<Rightarrow> (Inl e, s1)
      | (Inr acc', s1) \<Rightarrow> up_loop ex env cb ys acc' s1)"
proof (induction xs arbitrary: acc s)
  case Nil
  then show ?case by simp
next
  case (Cons x xs)
  obtain v s1 where step: "up_migration ex env cb x s = (v, s1)"
    by (cases "up_migration ex env cb x s")
  show ?case
  proof (cases v)
    case (Inl e)
    with step show ?thesis by simp
  next
    case (Inr r)
    with step Cons.IH [of "acc @ [r]" s1] show ?thesis by simp
  qed
qed

lemma up_loop_names:
  assumes "up_loop ex env cb ms acc s = (Inr rs, s')"
  shows "\<exists>new. rs = acc @ new \<and> map obj_name new = ms
           \<and> (\<forall>r\<in>set new. obj_direction r = ''up'')"
  using assms
proof (induction ms arbitrary: acc s)
  case Nil
  then show ?case by simp
next
  case (Cons m ms)
  obtain v s1 where step: "up_migration ex env cb m s = (v, s1)"
    by (cases "up_migration ex env cb m s")
  show ?case
  proof (cases v)
    case (Inl e)
    with Cons.prems step show ?thesis by simp
  next
    case (Inr r)
    with Cons.prems step have "up_loop ex env cb ms (acc @ [r]) s1 = (Inr rs, s')"
      by simp
    from Cons.IH [OF this] obtain new
      where new: "rs = (acc @ [r]) @ new \<and> map obj_name new = ms
                   \<and> (\<forall>r\<in>set new. obj_direction r = ''up'')" ..
    from step Inr up_migration_result [of ex env cb m s r s1]
    have r: "obj_name r = m \<and> obj_direction r = ''up''" by auto
    have "rs = acc @ (r # new) \<and> map obj_name (r # new) = m # ms
            \<and> (\<forall>x\<in>set (r # new). obj_direction x = ''up'')"
      using new r by simp
    then show ?thesis by (rule exI [of _ "r # new"])
  qed
qed

lemma up_loop_length:
  assumes "up_loop ex env cb ms acc s = (Inr rs, s')"
  shows "\<exists>new. rs = acc @ new \<and> length new = length ms"
proof -
  from up_loop_names [OF assms] obtain new where
    "rs = acc @ new \<and> map obj_name new = ms \<and> (\<forall>r\<in>set new. obj_direction r = ''up'')" ..
  then have "rs = acc @ new \<and> length new = length ms"
    using length_map [of obj_name new] by simp
  then show ?thesis ..
qed

text \<open>
  When no procedure writes to an array, the loop only adds arrays to the store, one for
  each object, and each still holds what was sliced for it.
\<close>

lemma up_loop_untouched:
  assumes "up_loop ex env cb ms acc s = (Inr rs, s')"
    and "arrays_untouched env cb"
  shows "\<exists>new ext. rs = acc @ new \<and> arrays s' = arrays s @ ext
           \<and> (\<forall>r\<in>set new. length (arrays s) \<le> obj_sql r \<and> obj_sql r < length (arrays s')
                 \<and> arrays s' ! obj_sql r \<noteq> []
                 \<and> last (arrays s' ! obj_sql r)
                     = insert_record_statement (tableName ex) (obj_name r)
                 \<and> obj_output r
                     = formatQueries (obj_name r) (obj_direction r) (arrays s' ! obj_sql r))"
  using assms(1)
proof (induction ms arbitrary: acc s)
  case Nil
  then show ?case by simp
next
  case (Cons m ms)
  from assms(2) have mf: "module_write_free (require env m)" and cbf: "callback_write_free cb"
    by (simp_all add: arrays_untouched_def)
  obtain v s1 where step: "up_migration ex env cb m s = (v, s1)"
    by (cases "up_migration ex env cb m s")
  show ?case
  proof (cases v)
    case (Inl e)
    with Cons.prems step show ?thesis by simp
  next
    case (Inr r)
    with step have stepr: "up_migration ex env cb m s = (Inr r, s1)" by simp
    from Cons.prems step Inr have "up_loop ex env cb ms (acc @ [r]) s1 = (Inr rs, s')"
      by simp
    from Cons.IH [OF this] obtain new ext where
      new: "rs = (acc @ [r]) @ new \<and> arrays s' = arrays s1 @ ext
           \<and> (\<forall>r\<in>set new. length (arrays s1) \<le> obj_sql r \<and> obj_sql r < length (arrays s')
                 \<and> arrays s' ! obj_sql r \<noteq> []
                 \<and> last (arrays s' ! obj_sql r)
                     = insert_record_statement (tableName ex) (obj_name r)
                 \<and> obj_output r
                     = formatQueries (obj_name r) (obj_direction r) (arrays s' ! obj_sql r))"
      by auto
    from up_migration_untouched [OF stepr mf cbf] obtain md where
      u: "require env m = Inr md \<and> obj_sql r = length (arrays s)
           \<and> arrays s1 = arrays s
                @ [captured_by ex (database env) (mod_up md) s
                     @ [insert_record_statement (tableName ex) m]]" ..
    from up_migration_result [OF stepr] u have
      o: "obj_name r = m \<and> obj_direction r = ''up''
           \<and> obj_output r = formatQueries m ''up''
                (captured_by ex (database env) (mod_up md) s
                   @ [insert_record_statement (tableName ex) m])"
      by auto
    let ?Q = "captured_by ex (database env) (mod_up md) s
                @ [insert_record_statement (tableName ex) m]"
    from new u have all: "arrays s' = arrays s @ (?Q # ext)" by simp
    then have at: "arrays s' ! obj_sql r = ?Q" using u by (simp add: nth_append)
    have r_ok: "length (arrays s) \<le> obj_sql r \<and> obj_sql r < length (arrays s')
                 \<and> arrays s' ! obj_sql r \<noteq> []
                 \<and> last (arrays s' ! obj_sql r)
                     = insert_record_statement (tableName ex) (obj_name r)
                 \<and> obj_output r
                     = formatQueries (obj_name r) (obj_direction r) (arrays s' ! obj_sql r)"
      unfolding at using u o all by simp
    have rest_ok: "\<forall>r\<in>set new. length (arrays s) \<le> obj_sql r \<and> obj_sql r < length (arrays s')
                 \<and> arrays s' ! obj_sql r \<noteq> []
                 \<and> last (arrays s' ! obj_sql r)
                     = insert_record_statement (tableName ex) (obj_name r)
                 \<and> obj_output r
                     = formatQueries (obj_name r) (obj_direction r) (arrays s' ! obj_sql r)"
      using new u by auto
    have "rs = acc @ (r # new) \<and> arrays s' = arrays s @ (?Q # ext)
           \<and> (\<forall>r\<in>set (r # new). length (arrays s) \<le> obj_sql r \<and> obj_sql r < length (arrays s')
                 \<and> arrays s' ! obj_sql r \<noteq> []
                 \<and> last (arrays s' ! obj_sql r)
                     = insert_record_statement (tableName ex) (obj_name r)
                 \<and> obj_output r
                     = formatQueries (obj_name r) (obj_direction r) (arrays s' ! obj_sql r))"
      using new all r_ok rest_ok by simp
    then show ?thesis by (intro exI)
  qed
qed

text \<open>
  The migration at any position of the list: the loop first processes the ones before
  it, and its object is at that position.
\<close>

lemma up_loop_position:
  assumes "up_loop ex env cb (before @ m # rest) [] s = (Inr rs, s')"
  shows "\<exists>finished s2 md. up_loop ex env cb before [] s = (Inr finished, s2)
           \<and> require env m = Inr md
           \<and> fst (run_proc ex (database env) (mod_up md) s2) = Inr ()
           \<and> length rs = length (before @ m # rest)
           \<and> obj_name (rs ! length before) = m
           \<and> obj_output (rs ! length before) =
               formatQueries m ''up''
                 (captured_by ex (database env) (mod_up md) s2
                    @ [insert_record_statement (tableName ex) m])
           \<and> (arrays_untouched env cb \<longrightarrow>
                 array_at s' (obj_sql (rs ! length before)) =
                   captured_by ex (database env) (mod_up md) s2
                     @ [insert_record_statement (tableName ex) m])"
proof -
  obtain v s2 where pre: "up_loop ex env cb before [] s = (v, s2)"
    by (cases "up_loop ex env cb before [] s")
  show ?thesis
  proof (cases v)
    case (Inl e)
    with pre assms show ?thesis by (simp add: up_loop_append)
  next
    case (Inr finished)
    with pre assms have tail: "up_loop ex env cb (m # rest) finished s2 = (Inr rs, s')"
      by (simp add: up_loop_append)
    obtain w s3 where step: "up_migration ex env cb m s2 = (w, s3)"
      by (cases "up_migration ex env cb m s2")
    show ?thesis
    proof (cases w)
      case (Inl e)
      with step tail show ?thesis by simp
    next
      case r: (Inr r)
      with step have stepr: "up_migration ex env cb m s2 = (Inr r, s3)" by simp
      from step r tail have rest: "up_loop ex env cb rest (finished @ [r]) s3 = (Inr rs, s')"
        by simp
      from up_loop_length [OF rest] obtain new
        where new: "rs = (finished @ [r]) @ new \<and> length new = length rest" ..
      from pre Inr up_loop_length [of ex env cb before "[]" s finished s2]
      have len: "length finished = length before" by auto
      from new len have at: "rs ! length before = r"
        by (simp add: nth_append)
      from new len have total: "length rs = length (before @ m # rest)" by simp
      from up_migration_result [OF stepr] obtain md where
        h: "require env m = Inr md
           \<and> fst (run_proc ex (database env) (mod_up md) s2) = Inr ()
           \<and> obj_name r = m \<and> obj_direction r = ''up''
           \<and> obj_output r = formatQueries m ''up''
                (captured_by ex (database env) (mod_up md) s2
                   @ [insert_record_statement (tableName ex) m])" ..
      have safe: "array_at s' (obj_sql r) =
                   captured_by ex (database env) (mod_up md) s2
                     @ [insert_record_statement (tableName ex) m]"
        if u: "arrays_untouched env cb"
      proof -
        from u have mf: "module_write_free (require env m)" and cbf: "callback_write_free cb"
          by (simp_all add: arrays_untouched_def)
        from up_migration_untouched [OF stepr mf cbf] h have
          a: "obj_sql r = length (arrays s2)"
          and b: "arrays s3 = arrays s2
                @ [captured_by ex (database env) (mod_up md) s2
                     @ [insert_record_statement (tableName ex) m]]"
          by auto
        from up_loop_untouched [OF rest u] obtain ext where "arrays s' = arrays s3 @ ext"
          by auto
        with a b show ?thesis by (simp add: array_at_def nth_append)
      qed
      have "up_loop ex env cb before [] s = (Inr finished, s2)
           \<and> require env m = Inr md
           \<and> fst (run_proc ex (database env) (mod_up md) s2) = Inr ()
           \<and> length rs = length (before @ m # rest)
           \<and> obj_name (rs ! length before) = m
           \<and> obj_output (rs ! length before) =
               formatQueries m ''up''
                 (captured_by ex (database env) (mod_up md) s2
                    @ [insert_record_statement (tableName ex) m])
           \<and> (arrays_untouched env cb \<longrightarrow>
                 array_at s' (obj_sql (rs ! length before)) =
                   captured_by ex (database env) (mod_up md) s2
                     @ [insert_record_statement (tableName ex) m])"
        using pre Inr h at total safe by simp
      then show ?thesis by (intro exI)
    qed
  qed
qed

subsection \<open>The two \<open>try\<close> blocks\<close>

lemma up_try_discovered:
  assumes "run_proc ex (database env) (umzug_pending env) (installed s) = (Inr names, s1)"
  shows "up_try ex env cb s =
     (if names = [] then (Inr [], logger_log ex (check_mark @ '' No pending migrations'') s1)
      else (case up_loop ex env cb names [] (log_pending ex names s1) of
              (Inl e, s4) \<Rightarrow> (Inl e, s4)
            | (Inr results, s4) \<Rightarrow> (Inr results, logger_log ex dry_run_completed s4)))"
  using assms by (simp add: up_try_def installed_def Let_def)

lemma up_try_discovery_failed:
  assumes "run_proc ex (database env) (umzug_pending env) (installed s) = (Inl e, s1)"
  shows "up_try ex env cb s = (Inl e, s1)"
  using assms by (simp add: up_try_def installed_def Let_def)

lemma down_try_discovered:
  assumes "run_proc ex (database env) (umzug_executed env) (installed s) = (Inr names, s1)"
  shows "down_try ex env cb s =
     (if names = [] then (Inr None, logger_log ex (check_mark @ '' No migrations to rollback'') s1)
      else (case down_migration ex env cb (last names) (log_last_executed ex (last names) s1) of
              (Inl e, s3) \<Rightarrow> (Inl e, s3)
            | (Inr result, s3) \<Rightarrow> (Inr (Some result), logger_log ex dry_run_completed s3)))"
  using assms by (simp add: down_try_def installed_def Let_def last_conv_nth)

lemma down_try_discovery_failed:
  assumes "run_proc ex (database env) (umzug_executed env) (installed s) = (Inl e, s1)"
  shows "down_try ex env cb s = (Inl e, s1)"
  using assms by (simp add: down_try_def installed_def Let_def)

text \<open>A list returned by the block of \<open>up\<close> is the one the loop built.\<close>

lemma up_try_results:
  assumes "up_try ex env cb s = (Inr rs, s')"
  shows "\<exists>names s1 s2 s3.
           run_proc ex (database env) (umzug_pending env) (installed s) = (Inr names, s1)
           \<and> up_loop ex env cb names [] s2 = (Inr rs, s3) \<and> arrays s' = arrays s3"
proof -
  obtain v s1 where d: "run_proc ex (database env) (umzug_pending env) (installed s) = (v, s1)"
    by (cases "run_proc ex (database env) (umzug_pending env) (installed s)")
  show ?thesis
  proof (cases v)
    case (Inl e)
    with d assms show ?thesis by (simp add: up_try_discovery_failed)
  next
    case (Inr names)
    note u = up_try_discovered [OF d [unfolded Inr], of cb]
    show ?thesis
    proof (cases "names = []")
      case True
      with u assms have "rs = []" and "arrays s' = arrays s1"
        by (auto simp add: logger_log_fields)
      then have "run_proc ex (database env) (umzug_pending env) (installed s) = (Inr names, s1)
           \<and> up_loop ex env cb names [] s1 = (Inr rs, s1) \<and> arrays s' = arrays s1"
        using True d Inr by simp
      then show ?thesis by (intro exI)
    next
      case False
      obtain w s4 where l: "up_loop ex env cb names [] (log_pending ex names s1) = (w, s4)"
        by (cases "up_loop ex env cb names [] (log_pending ex names s1)")
      from u False l assms have "w = Inr rs \<and> arrays s' = arrays s4"
        by (cases w) (auto simp add: logger_log_fields)
      then have "run_proc ex (database env) (umzug_pending env) (installed s) = (Inr names, s1)
           \<and> up_loop ex env cb names [] (log_pending ex names s1) = (Inr rs, s4)
           \<and> arrays s' = arrays s4"
        using l d Inr by simp
      then show ?thesis by (intro exI)
    qed
  qed
qed

text \<open>What \<open>up\<close> and \<open>down\<close> give for what their blocks give.\<close>

lemma up_returns:
  assumes "up ex env cb s = (Inr results, s')"
  shows "\<exists>objs sF. up_try ex env cb s = (Inr objs, sF) \<and> results = map (read_result sF) objs"
proof -
  obtain v sF where t: "up_try ex env cb s = (v, sF)" by (cases "up_try ex env cb s")
  show ?thesis
  proof (cases v)
    case (Inl e)
    with t assms show ?thesis by (simp add: up_def)
  next
    case (Inr objs)
    with t assms have "up_try ex env cb s = (Inr objs, sF) \<and> results = map (read_result sF) objs"
      by (auto simp add: up_def)
    then show ?thesis by (intro exI)
  qed
qed

lemma up_throws: "up_try ex env cb s = (Inl e, s1) \<Longrightarrow> up ex env cb s = (Inl e, restore ex s1)"
  by (simp add: up_def)

lemma down_throws:
  "down_try ex env cb s = (Inl e, s1) \<Longrightarrow> down ex env cb s = (Inl e, restore ex s1)"
  by (simp add: down_def)

lemma snd_up: "snd (up ex env cb s) = restore ex (snd (up_try ex env cb s))"
  by (simp add: up_def split: prod.splits sum.splits)

lemma snd_down: "snd (down ex env cb s) = restore ex (snd (down_try ex env cb s))"
  by (simp add: down_def split: prod.splits sum.splits)

subsection \<open>The example runs\<close>

lemma example_up_run:
  "up example_dryrun example_env None example_created =
     (Inr [\<lparr> name = ''0001-create-users'', direction = ''up'',
              sql = [''CREATE TABLE users (id INTEGER);'',
                     ''INSERT INTO `SequelizeMeta` (`name`) VALUES ('0001-create-users');''],
              output_text = formatQueries ''0001-create-users'' ''up''
                [''CREATE TABLE users (id INTEGER);'',
                 ''INSERT INTO `SequelizeMeta` (`name`) VALUES ('0001-create-users');''] \<rparr>],
      example_created\<lparr> sequelize_query := 3, next_ref := 7,
        capturedQueries := [''CREATE TABLE users (id INTEGER);'',
                     ''INSERT INTO `SequelizeMeta` (`name`) VALUES ('0001-create-users');''],
        arrays := [[''CREATE TABLE users (id INTEGER);'',
                     ''INSERT INTO `SequelizeMeta` (`name`) VALUES ('0001-create-users');'']] \<rparr>)"
  by code_simp

lemma example_down_run:
  "down example_dryrun example_env_two_applied None example_created =
     (Inr (Some \<lparr> name = ''0002-add-email'', direction = ''down'',
              sql = [''ALTER TABLE users DROP COLUMN email;'',
                     ''DELETE FROM `SequelizeMeta` WHERE `name` = '0002-add-email';''],
              output_text = formatQueries ''0002-add-email'' ''down''
                [''ALTER TABLE users DROP COLUMN email;'',
                 ''DELETE FROM `SequelizeMeta` WHERE `name` = '0002-add-email';''] \<rparr>),
      example_created\<lparr> sequelize_query := 3, next_ref := 7,
        capturedQueries := [''ALTER TABLE users DROP COLUMN email;'',
                     ''DELETE FROM `SequelizeMeta` WHERE `name` = '0002-add-email';''],
        arrays := [[''ALTER TABLE users DROP COLUMN email;'',
                     ''DELETE FROM `SequelizeMeta` WHERE `name` = '0002-add-email';'']] \<rparr>)"
  by code_simp

lemma propagate_write_free: "write_free (propagate r)"
  by (cases r) (simp_all add: propagate_def)

lemma example_arrays_untouched: "arrays_untouched example_env None"
  by (simp add: arrays_untouched_def callback_write_free_def module_write_free_def
      example_env_def example_require_def create_users_def drop_users_def propagate_write_free)

lemma example_two_arrays_untouched: "arrays_untouched example_env_two_applied None"
  by (simp add: arrays_untouched_def callback_write_free_def module_write_free_def
      example_env_two_applied_def example_require_two_def create_users_def drop_users_def
      add_email_def drop_email_def propagate_write_free)

subsection \<open>The results of \<open>up\<close>\<close>

text \<open>
  C4, as the claim states it, fails: the array that the code puts into the result is
  the very array it hands to \<open>onMigration\<close>. With the callback
  \<^verbatim>\<open>(name, queries) => { queries.push("EXTRA"); }\<close> the statement list of the
  returned result ends with \<open>EXTRA\<close>, not with the insert-record statement, and has
  three elements.
\<close>

theorem up_callback_changes_statements_counterexample:
  "fst (up example_dryrun example_env (Some pushing_callback) example_created) =
     Inr [\<lparr> name = ''0001-create-users'', direction = ''up'',
             sql = [''CREATE TABLE users (id INTEGER);'',
                    ''INSERT INTO `SequelizeMeta` (`name`) VALUES ('0001-create-users');'',
                    ''EXTRA''],
             output_text = formatQueries ''0001-create-users'' ''up''
               [''CREATE TABLE users (id INTEGER);'',
                ''INSERT INTO `SequelizeMeta` (`name`) VALUES ('0001-create-users');''] \<rparr>]
   \<and> last [''CREATE TABLE users (id INTEGER);'',
            ''INSERT INTO `SequelizeMeta` (`name`) VALUES ('0001-create-users');'',
            ''EXTRA'']
       \<noteq> insert_record_statement (tableName example_dryrun) ''0001-create-users''"
  by code_simp

text \<open>
  C4, amended: for the migration at any position of the pending list the runner
  reported, the loop has processed the migrations before it, and the statement sequence
  sliced for it, which is what the result's output renders and what \<open>onMigration\<close> is
  handed, is exactly what the migration's \<open>up\<close> procedure added to the buffer from the
  state the loop had reached, followed by the insert-record statement as its last
  element. The \<open>sql\<close> of the returned result is that same array: when no migration
  procedure and no callback writes to an array, the statement list of every returned
  result is this sequence and ends with the insert-record statement for its own
  migration. For the migration
  \<open>0001-create-users\<close> that issues one \<open>CREATE TABLE\<close>, with the table
  \<open>SequelizeMeta\<close> and no callback, the list is that statement and then
  \<^verbatim>\<open>INSERT INTO `SequelizeMeta` (`name`) VALUES ('0001-create-users');\<close>
  as the evaluation after the theorem shows.
\<close>

theorem up_final_statement_is_insert_record:
  assumes "up ex env cb s = (Inr results, s')"
  shows "(\<forall>before m rest s1.
           run_proc ex (database env) (umzug_pending env) (installed s)
             = (Inr (before @ m # rest), s1)
           \<longrightarrow> (\<exists>finished s2 md.
                 up_loop ex env cb before [] (log_pending ex (before @ m # rest) s1)
                   = (Inr finished, s2)
                 \<and> require env m = Inr md
                 \<and> fst (run_proc ex (database env) (mod_up md) s2) = Inr ()
                 \<and> length results = length (before @ m # rest)
                 \<and> name (results ! length before) = m
                 \<and> output_text (results ! length before) =
                     formatQueries m ''up''
                       (captured_by ex (database env) (mod_up md) s2
                          @ [insert_record_statement (tableName ex) m])
                 \<and> (arrays_untouched env cb \<longrightarrow>
                       sql (results ! length before) =
                         captured_by ex (database env) (mod_up md) s2
                           @ [insert_record_statement (tableName ex) m])))
     \<and> (arrays_untouched env cb \<longrightarrow>
           (\<forall>r\<in>set results.
              sql r \<noteq> [] \<and> last (sql r) = insert_record_statement (tableName ex) (name r)))"
proof -
  from up_returns [OF assms] obtain objs sF where
    t: "up_try ex env cb s = (Inr objs, sF)" and res: "results = map (read_result sF) objs"
    by auto
  have a: "\<exists>finished s2 md.
                 up_loop ex env cb before [] (log_pending ex (before @ m # rest) s1)
                   = (Inr finished, s2)
                 \<and> require env m = Inr md
                 \<and> fst (run_proc ex (database env) (mod_up md) s2) = Inr ()
                 \<and> length results = length (before @ m # rest)
                 \<and> name (results ! length before) = m
                 \<and> output_text (results ! length before) =
                     formatQueries m ''up''
                       (captured_by ex (database env) (mod_up md) s2
                          @ [insert_record_statement (tableName ex) m])
                 \<and> (arrays_untouched env cb \<longrightarrow>
                       sql (results ! length before) =
                         captured_by ex (database env) (mod_up md) s2
                           @ [insert_record_statement (tableName ex) m])"
    if disc: "run_proc ex (database env) (umzug_pending env) (installed s)
             = (Inr (before @ m # rest), s1)" for before m rest s1
  proof -
    let ?start = "log_pending ex (before @ m # rest) s1"
    obtain w s4 where l: "up_loop ex env cb (before @ m # rest) [] ?start = (w, s4)"
      by (cases "up_loop ex env cb (before @ m # rest) [] ?start")
    from t up_try_discovered [OF disc, of cb] l
    have "w = Inr objs \<and> sF = logger_log ex dry_run_completed s4"
      by (cases w) simp_all
    then have w: "up_loop ex env cb (before @ m # rest) [] ?start = (Inr objs, s4)"
      and sF: "array_at sF = array_at s4"
      using l by (simp_all add: array_at_logger_log fun_eq_iff)
    from up_loop_position [OF w] obtain finished s2 md where
      h: "up_loop ex env cb before [] ?start = (Inr finished, s2)
           \<and> require env m = Inr md
           \<and> fst (run_proc ex (database env) (mod_up md) s2) = Inr ()
           \<and> length objs = length (before @ m # rest)
           \<and> obj_name (objs ! length before) = m
           \<and> obj_output (objs ! length before) =
               formatQueries m ''up''
                 (captured_by ex (database env) (mod_up md) s2
                    @ [insert_record_statement (tableName ex) m])
           \<and> (arrays_untouched env cb \<longrightarrow>
                 array_at s4 (obj_sql (objs ! length before)) =
                   captured_by ex (database env) (mod_up md) s2
                     @ [insert_record_statement (tableName ex) m])"
      by auto
    then have "length before < length objs" by simp
    then have at: "results ! length before = read_result sF (objs ! length before)"
      unfolding res by simp
    have "up_loop ex env cb before [] ?start = (Inr finished, s2)
                 \<and> require env m = Inr md
                 \<and> fst (run_proc ex (database env) (mod_up md) s2) = Inr ()
                 \<and> length results = length (before @ m # rest)
                 \<and> name (results ! length before) = m
                 \<and> output_text (results ! length before) =
                     formatQueries m ''up''
                       (captured_by ex (database env) (mod_up md) s2
                          @ [insert_record_statement (tableName ex) m])
                 \<and> (arrays_untouched env cb \<longrightarrow>
                       sql (results ! length before) =
                         captured_by ex (database env) (mod_up md) s2
                           @ [insert_record_statement (tableName ex) m])"
      unfolding at using h res sF by (simp add: read_result_def)
    then show ?thesis by (intro exI)
  qed
  have b: "\<forall>r\<in>set results.
              sql r \<noteq> [] \<and> last (sql r) = insert_record_statement (tableName ex) (name r)"
    if u: "arrays_untouched env cb"
  proof
    fix r assume "r \<in> set results"
    with res obtain obj where obj: "obj \<in> set objs" and r: "r = read_result sF obj" by auto
    from up_try_results [OF t] obtain s2 s3 names where
      l: "up_loop ex env cb names [] s2 = (Inr objs, s3)" and ar: "arrays sF = arrays s3"
      by auto
    from up_loop_untouched [OF l u] obtain new ext where
      new: "objs = [] @ new \<and> arrays s3 = arrays s2 @ ext
           \<and> (\<forall>r\<in>set new. length (arrays s2) \<le> obj_sql r \<and> obj_sql r < length (arrays s3)
                 \<and> arrays s3 ! obj_sql r \<noteq> []
                 \<and> last (arrays s3 ! obj_sql r)
                     = insert_record_statement (tableName ex) (obj_name r)
                 \<and> obj_output r
                     = formatQueries (obj_name r) (obj_direction r) (arrays s3 ! obj_sql r))"
      by auto
    with obj have "obj_sql obj < length (arrays s3)
                 \<and> arrays s3 ! obj_sql obj \<noteq> []
                 \<and> last (arrays s3 ! obj_sql obj)
                     = insert_record_statement (tableName ex) (obj_name obj)"
      by auto
    then show "sql r \<noteq> [] \<and> last (sql r) = insert_record_statement (tableName ex) (name r)"
      unfolding r by (simp add: read_result_def array_at_def ar)
  qed
  from a b show ?thesis by simp
qed

theorem up_final_statement_is_insert_record_witness:
  "up example_dryrun example_env None example_created =
     (Inr [\<lparr> name = ''0001-create-users'', direction = ''up'',
              sql = [''CREATE TABLE users (id INTEGER);'',
                     ''INSERT INTO `SequelizeMeta` (`name`) VALUES ('0001-create-users');''],
              output_text = formatQueries ''0001-create-users'' ''up''
                [''CREATE TABLE users (id INTEGER);'',
                 ''INSERT INTO `SequelizeMeta` (`name`) VALUES ('0001-create-users');''] \<rparr>],
      example_created\<lparr> sequelize_query := 3, next_ref := 7,
        capturedQueries := [''CREATE TABLE users (id INTEGER);'',
                     ''INSERT INTO `SequelizeMeta` (`name`) VALUES ('0001-create-users');''],
        arrays := [[''CREATE TABLE users (id INTEGER);'',
                     ''INSERT INTO `SequelizeMeta` (`name`) VALUES ('0001-create-users');'']] \<rparr>)
   \<and> last [''CREATE TABLE users (id INTEGER);'',
            ''INSERT INTO `SequelizeMeta` (`name`) VALUES ('0001-create-users');'']
       = insert_record_statement (tableName example_dryrun) ''0001-create-users''
   \<and> (\<exists>md. require example_env ''0001-create-users'' = Inr md
         \<and> [''CREATE TABLE users (id INTEGER);'',
              ''INSERT INTO `SequelizeMeta` (`name`) VALUES ('0001-create-users');'']
            = captured_by example_dryrun (database example_env) (mod_up md)
                (installed example_created)
              @ [insert_record_statement (tableName example_dryrun) ''0001-create-users''])"
proof -
  let ?r = "\<lparr> name = ''0001-create-users'', direction = ''up'',
              sql = [''CREATE TABLE users (id INTEGER);'',
                     ''INSERT INTO `SequelizeMeta` (`name`) VALUES ('0001-create-users');''],
              output_text = formatQueries ''0001-create-users'' ''up''
                [''CREATE TABLE users (id INTEGER);'',
                 ''INSERT INTO `SequelizeMeta` (`name`) VALUES ('0001-create-users');''] \<rparr>"
  note t = up_final_statement_is_insert_record [OF example_up_run]
  have disc: "run_proc example_dryrun (database example_env) (umzug_pending example_env)
      (installed example_created) = (Inr ([] @ ''0001-create-users'' # []), installed example_created)"
    by (simp add: example_env_def)
  have start: "up_loop example_dryrun example_env None [] []
      (log_pending example_dryrun ([] @ ''0001-create-users'' # []) (installed example_created))
      = (Inr [], installed example_created)"
    by code_simp
  from t disc example_arrays_untouched obtain finished s2 md where
    h: "up_loop example_dryrun example_env None [] []
          (log_pending example_dryrun ([] @ ''0001-create-users'' # []) (installed example_created))
        = (Inr finished, s2)
      \<and> require example_env ''0001-create-users'' = Inr md
      \<and> sql ([?r] ! length ([] :: string list)) =
          captured_by example_dryrun (database example_env) (mod_up md) s2
            @ [insert_record_statement (tableName example_dryrun) ''0001-create-users'']"
    by meson
  from h start have s2: "s2 = installed example_created" by simp
  have c: "\<exists>md. require example_env ''0001-create-users'' = Inr md
         \<and> [''CREATE TABLE users (id INTEGER);'',
              ''INSERT INTO `SequelizeMeta` (`name`) VALUES ('0001-create-users');'']
            = captured_by example_dryrun (database example_env) (mod_up md)
                (installed example_created)
              @ [insert_record_statement (tableName example_dryrun) ''0001-create-users'']"
    apply (rule exI [of _ md])
    using h s2 by simp
  from t example_arrays_untouched
  have "last [''CREATE TABLE users (id INTEGER);'',
            ''INSERT INTO `SequelizeMeta` (`name`) VALUES ('0001-create-users');'']
       = insert_record_statement (tableName example_dryrun) ''0001-create-users''"
    by simp
  with c example_up_run show ?thesis by simp
qed

lemma up_loop_outputs:
  assumes "up_loop ex env cb ms acc s = (Inr rs, s')"
  shows "\<exists>new. rs = acc @ new
           \<and> (\<forall>r\<in>set new. \<exists>md s0. require env (obj_name r) = Inr md
                 \<and> obj_direction r = ''up''
                 \<and> obj_output r = formatQueries (obj_name r) ''up''
                      (captured_by ex (database env) (mod_up md) s0
                         @ [insert_record_statement (tableName ex) (obj_name r)]))"
proof -
  define P where "P = (\<lambda>r::result_object. \<exists>md s0. require env (obj_name r) = Inr md
                 \<and> obj_direction r = ''up''
                 \<and> obj_output r = formatQueries (obj_name r) ''up''
                      (captured_by ex (database env) (mod_up md) s0
                         @ [insert_record_statement (tableName ex) (obj_name r)]))"
  have one: "P r" if "up_migration ex env cb m s = (Inr r, s1)" for m s r s1
  proof -
    from up_migration_result [OF that] obtain md where
      h: "require env m = Inr md
           \<and> fst (run_proc ex (database env) (mod_up md) s) = Inr ()
           \<and> obj_name r = m \<and> obj_direction r = ''up''
           \<and> obj_output r = formatQueries m ''up''
                (captured_by ex (database env) (mod_up md) s
                   @ [insert_record_statement (tableName ex) m])" ..
    show ?thesis
      unfolding P_def
      apply (rule exI [of _ md])
      apply (rule exI [of _ s])
      using h by simp
  qed
  have "\<exists>new. rs = acc @ new \<and> (\<forall>r\<in>set new. P r)"
    using assms
  proof (induction ms arbitrary: acc s)
    case Nil
    then show ?case by simp
  next
    case (Cons m ms)
    obtain v s1 where step: "up_migration ex env cb m s = (v, s1)"
      by (cases "up_migration ex env cb m s")
    show ?case
    proof (cases v)
      case (Inl e)
      with Cons.prems step show ?thesis by simp
    next
      case (Inr r)
      with Cons.prems step have "up_loop ex env cb ms (acc @ [r]) s1 = (Inr rs, s')"
        by simp
      from Cons.IH [OF this] obtain new
        where new: "rs = (acc @ [r]) @ new \<and> (\<forall>r\<in>set new. P r)" ..
      from one [of m s r s1] step Inr have "P r" by simp
      with new have "rs = acc @ (r # new) \<and> (\<forall>x\<in>set (r # new). P x)" by simp
      then show ?thesis by (rule exI [of _ "r # new"])
    qed
  qed
  then show ?thesis unfolding P_def .
qed

lemma down_returns:
  assumes "fst (down ex env cb s) = Inr (Some result)"
  shows "\<exists>obj sF. down_try ex env cb s = (Inr (Some obj), sF) \<and> result = read_result sF obj"
proof -
  obtain v sF where t: "down_try ex env cb s = (v, sF)" by (cases "down_try ex env cb s")
  show ?thesis
  proof (cases v)
    case (Inl e)
    with t assms show ?thesis by (simp add: down_def)
  next
    case (Inr found)
    show ?thesis
    proof (cases found)
      case None
      with Inr t assms show ?thesis by (simp add: down_def)
    next
      case (Some obj)
      with Inr t assms
      have "down_try ex env cb s = (Inr (Some obj), sF) \<and> result = read_result sF obj"
        by (auto simp add: down_def)
      then show ?thesis by (intro exI)
    qed
  qed
qed

lemma down_try_result:
  assumes "down_try ex env cb s = (Inr (Some obj), sF)"
  shows "\<exists>names s1 s3.
           run_proc ex (database env) (umzug_executed env) (installed s) = (Inr names, s1)
           \<and> names \<noteq> []
           \<and> down_migration ex env cb (last names) (log_last_executed ex (last names) s1)
               = (Inr obj, s3)
           \<and> sF = logger_log ex dry_run_completed s3"
proof -
  obtain v s1 where d: "run_proc ex (database env) (umzug_executed env) (installed s) = (v, s1)"
    by (cases "run_proc ex (database env) (umzug_executed env) (installed s)")
  show ?thesis
  proof (cases v)
    case (Inl e)
    with d assms show ?thesis by (simp add: down_try_discovery_failed)
  next
    case (Inr names)
    note u = down_try_discovered [OF d [unfolded Inr], of cb]
    show ?thesis
    proof (cases "names = []")
      case True
      with u assms show ?thesis by simp
    next
      case False
      obtain w s3 where
        l: "down_migration ex env cb (last names) (log_last_executed ex (last names) s1) = (w, s3)"
        by (cases "down_migration ex env cb (last names) (log_last_executed ex (last names) s1)")
      from u False l assms have "w = Inr obj \<and> sF = logger_log ex dry_run_completed s3"
        by (cases w) simp_all
      then have "run_proc ex (database env) (umzug_executed env) (installed s) = (Inr names, s1)
           \<and> names \<noteq> []
           \<and> down_migration ex env cb (last names) (log_last_executed ex (last names) s1)
               = (Inr obj, s3)
           \<and> sF = logger_log ex dry_run_completed s3"
        using l d Inr False by simp
      then show ?thesis by (intro exI)
    qed
  qed
qed

text \<open>What the caller reads in the object of \<open>down\<close>.\<close>

lemma down_migration_read:
  assumes "down_migration ex env cb m s = (Inr obj, s3)"
  shows "\<exists>md. require env m = Inr md
           \<and> name (read_result (logger_log ex msg s3) obj) = m
           \<and> direction (read_result (logger_log ex msg s3) obj) = ''down''
           \<and> output_text (read_result (logger_log ex msg s3) obj) =
               formatQueries m ''down''
                 (captured_by ex (database env) (mod_down md) s
                    @ [delete_record_statement (tableName ex) m])
           \<and> (arrays_untouched env cb \<longrightarrow>
                 sql (read_result (logger_log ex msg s3) obj) =
                   captured_by ex (database env) (mod_down md) s
                     @ [delete_record_statement (tableName ex) m])"
proof -
  from down_migration_result [OF assms] obtain md where
    h: "require env m = Inr md
           \<and> fst (run_proc ex (database env) (mod_down md) s) = Inr ()
           \<and> obj_name obj = m \<and> obj_direction obj = ''down''
           \<and> obj_output obj = formatQueries m ''down''
                (captured_by ex (database env) (mod_down md) s
                   @ [delete_record_statement (tableName ex) m])" ..
  have safe: "sql (read_result (logger_log ex msg s3) obj) =
                   captured_by ex (database env) (mod_down md) s
                     @ [delete_record_statement (tableName ex) m]"
    if u: "arrays_untouched env cb"
  proof -
    from u have mf: "module_write_free (require env m)" and cbf: "callback_write_free cb"
      by (simp_all add: arrays_untouched_def)
    from down_migration_untouched [OF assms mf cbf] h have
      "obj_sql obj = length (arrays s)"
      "arrays s3 = arrays s
                @ [captured_by ex (database env) (mod_down md) s
                     @ [delete_record_statement (tableName ex) m]]"
      by auto
    then show ?thesis
      by (simp add: read_result_def array_at_def logger_log_fields)
  qed
  have "require env m = Inr md
           \<and> name (read_result (logger_log ex msg s3) obj) = m
           \<and> direction (read_result (logger_log ex msg s3) obj) = ''down''
           \<and> output_text (read_result (logger_log ex msg s3) obj) =
               formatQueries m ''down''
                 (captured_by ex (database env) (mod_down md) s
                    @ [delete_record_statement (tableName ex) m])
           \<and> (arrays_untouched env cb \<longrightarrow>
                 sql (read_result (logger_log ex msg s3) obj) =
                   captured_by ex (database env) (mod_down md) s
                     @ [delete_record_statement (tableName ex) m])"
    using h safe by (simp add: read_result_def)
  then show ?thesis ..
qed

subsection \<open>The rendered output and the other fields\<close>

text \<open>
  C10, as the claim states it, fails: the output is rendered before \<open>onMigration\<close> is
  called with the array that is the result's \<open>sql\<close>. With a callback that pushes
  \<open>EXTRA\<close>, the result of \<open>down\<close> lists three statements and its output renders
  two.
\<close>

theorem output_differs_after_callback_counterexample:
  "fst (down example_dryrun example_env_applied (Some pushing_callback) example_created) =
     Inr (Some \<lparr> name = ''0001-create-users'', direction = ''down'',
             sql = [''DROP TABLE users;'',
                    ''DELETE FROM `SequelizeMeta` WHERE `name` = '0001-create-users';'',
                    ''EXTRA''],
             output_text = formatQueries ''0001-create-users'' ''down''
               [''DROP TABLE users;'',
                ''DELETE FROM `SequelizeMeta` WHERE `name` = '0001-create-users';''] \<rparr>)
   \<and> formatQueries ''0001-create-users'' ''down''
               [''DROP TABLE users;'',
                ''DELETE FROM `SequelizeMeta` WHERE `name` = '0001-create-users';'']
       \<noteq> formatQueries ''0001-create-users'' ''down''
               [''DROP TABLE users;'',
                ''DELETE FROM `SequelizeMeta` WHERE `name` = '0001-create-users';'',
                ''EXTRA'']"
  by code_simp

text \<open>
  C10, amended: in every result that \<open>up\<close> or \<open>down\<close> returns, the output is the
  formatter applied to the result's name and direction and to the statement list as it
  was sliced: the statements the migration's procedure added to the buffer, then the
  bookkeeping statement. It is the formatter applied to the result's own three fields
  whenever no migration procedure and no callback writes to an array.
\<close>

theorem output_is_formatQueries_of_fields:
  "(\<forall>rs. fst (up ex env cb s) = Inr rs \<longrightarrow>
       (\<forall>r\<in>set rs.
          (\<exists>md s0. require env (name r) = Inr md
             \<and> output_text r = formatQueries (name r) (direction r)
                  (captured_by ex (database env) (mod_up md) s0
                     @ [insert_record_statement (tableName ex) (name r)]))
          \<and> (arrays_untouched env cb \<longrightarrow>
                output_text r = formatQueries (name r) (direction r) (sql r))))
   \<and> (\<forall>r. fst (down ex env cb s) = Inr (Some r) \<longrightarrow>
         (\<exists>md s0. require env (name r) = Inr md
             \<and> output_text r = formatQueries (name r) (direction r)
                  (captured_by ex (database env) (mod_down md) s0
                     @ [delete_record_statement (tableName ex) (name r)]))
         \<and> (arrays_untouched env cb \<longrightarrow>
               output_text r = formatQueries (name r) (direction r) (sql r)))"
proof -
  have up_part: "(\<exists>md s0. require env (name r) = Inr md
             \<and> output_text r = formatQueries (name r) (direction r)
                  (captured_by ex (database env) (mod_up md) s0
                     @ [insert_record_statement (tableName ex) (name r)]))
          \<and> (arrays_untouched env cb \<longrightarrow>
                output_text r = formatQueries (name r) (direction r) (sql r))"
    if up: "fst (up ex env cb s) = Inr rs" and r: "r \<in> set rs" for rs r
  proof -
    from up obtain s' where "up ex env cb s = (Inr rs, s')"
      by (cases "up ex env cb s") simp
    from up_returns [OF this] obtain objs sF where
      t: "up_try ex env cb s = (Inr objs, sF)" and res: "rs = map (read_result sF) objs"
      by auto
    from r res obtain obj where obj: "obj \<in> set objs" and rd: "r = read_result sF obj"
      by auto
    from up_try_results [OF t] obtain s2 s3 names where
      l: "up_loop ex env cb names [] s2 = (Inr objs, s3)" and ar: "arrays sF = arrays s3"
      by auto
    from up_loop_outputs [OF l] obj obtain md s0 where
      h: "require env (obj_name obj) = Inr md
                 \<and> obj_direction obj = ''up''
                 \<and> obj_output obj = formatQueries (obj_name obj) ''up''
                      (captured_by ex (database env) (mod_up md) s0
                         @ [insert_record_statement (tableName ex) (obj_name obj)])"
      by auto
    have first: "\<exists>md s0. require env (name r) = Inr md
             \<and> output_text r = formatQueries (name r) (direction r)
                  (captured_by ex (database env) (mod_up md) s0
                     @ [insert_record_statement (tableName ex) (name r)])"
      apply (rule exI [of _ md])
      apply (rule exI [of _ s0])
      unfolding rd using h by (simp add: read_result_def)
    have second: "output_text r = formatQueries (name r) (direction r) (sql r)"
      if u: "arrays_untouched env cb"
    proof -
      from up_loop_untouched [OF l u] obtain new ext where
        new: "objs = [] @ new \<and> arrays s3 = arrays s2 @ ext
           \<and> (\<forall>r\<in>set new. length (arrays s2) \<le> obj_sql r \<and> obj_sql r < length (arrays s3)
                 \<and> arrays s3 ! obj_sql r \<noteq> []
                 \<and> last (arrays s3 ! obj_sql r)
                     = insert_record_statement (tableName ex) (obj_name r)
                 \<and> obj_output r
                     = formatQueries (obj_name r) (obj_direction r) (arrays s3 ! obj_sql r))"
        by auto
      with obj have "obj_sql obj < length (arrays s3)
                 \<and> obj_output obj
                     = formatQueries (obj_name obj) (obj_direction obj) (arrays s3 ! obj_sql obj)"
        by auto
      then show ?thesis
        unfolding rd by (simp add: read_result_def array_at_def ar)
    qed
    from first second show ?thesis by simp
  qed
  have down_part: "(\<exists>md s0. require env (name r) = Inr md
             \<and> output_text r = formatQueries (name r) (direction r)
                  (captured_by ex (database env) (mod_down md) s0
                     @ [delete_record_statement (tableName ex) (name r)]))
         \<and> (arrays_untouched env cb \<longrightarrow>
               output_text r = formatQueries (name r) (direction r) (sql r))"
    if down: "fst (down ex env cb s) = Inr (Some r)" for r
  proof -
    from down_returns [OF down] obtain obj sF where
      t: "down_try ex env cb s = (Inr (Some obj), sF)" and rd: "r = read_result sF obj"
      by auto
    from down_try_result [OF t] obtain names s1 s3 where
      m: "down_migration ex env cb (last names) (log_last_executed ex (last names) s1)
               = (Inr obj, s3)"
      and sF: "sF = logger_log ex dry_run_completed s3"
      by auto
    from down_migration_read [OF m, of dry_run_completed] obtain md where
      h: "require env (last names) = Inr md
           \<and> name r = last names
           \<and> direction r = ''down''
           \<and> output_text r =
               formatQueries (last names) ''down''
                 (captured_by ex (database env) (mod_down md)
                    (log_last_executed ex (last names) s1)
                    @ [delete_record_statement (tableName ex) (last names)])
           \<and> (arrays_untouched env cb \<longrightarrow>
                 sql r =
                   captured_by ex (database env) (mod_down md)
                     (log_last_executed ex (last names) s1)
                     @ [delete_record_statement (tableName ex) (last names)])"
      unfolding rd sF by auto
    have first: "\<exists>md s0. require env (name r) = Inr md
             \<and> output_text r = formatQueries (name r) (direction r)
                  (captured_by ex (database env) (mod_down md) s0
                     @ [delete_record_statement (tableName ex) (name r)])"
      apply (rule exI [of _ md])
      apply (rule exI [of _ "log_last_executed ex (last names) s1"])
      using h by simp
    from first h show ?thesis by simp
  qed
  from up_part down_part show ?thesis by simp
qed

lemma example_reading_untouched: "arrays_untouched example_env (Some reading_callback)"
  by (simp add: arrays_untouched_def callback_write_free_def module_write_free_def
      example_env_def example_require_def create_users_def drop_users_def propagate_write_free
      reading_callback_def)

lemma example_up_run_reading:
  "fst (up example_dryrun example_env (Some reading_callback) example_created) =
      Inr [\<lparr> name = ''0001-create-users'', direction = ''up'',
              sql = [''CREATE TABLE users (id INTEGER);'',
                     ''INSERT INTO `SequelizeMeta` (`name`) VALUES ('0001-create-users');''],
              output_text = formatQueries ''0001-create-users'' ''up''
                [''CREATE TABLE users (id INTEGER);'',
                 ''INSERT INTO `SequelizeMeta` (`name`) VALUES ('0001-create-users');''] \<rparr>]"
  by code_simp

theorem output_is_formatQueries_of_fields_witness:
  "(\<exists>r. fst (up example_dryrun example_env (Some reading_callback) example_created) = Inr [r]
          \<and> sql r = [''CREATE TABLE users (id INTEGER);'',
                     ''INSERT INTO `SequelizeMeta` (`name`) VALUES ('0001-create-users');'']
          \<and> output_text r = formatQueries (name r) (direction r) (sql r))
   \<and> (\<exists>r. fst (down example_dryrun example_env_two_applied None example_created) = Inr (Some r)
          \<and> sql r = [''ALTER TABLE users DROP COLUMN email;'',
                     ''DELETE FROM `SequelizeMeta` WHERE `name` = '0002-add-email';'']
          \<and> output_text r = formatQueries (name r) (direction r) (sql r))"
proof -
  note d = output_is_formatQueries_of_fields
      [of example_dryrun example_env_two_applied None example_created]
  note u = output_is_formatQueries_of_fields
      [of example_dryrun example_env "Some reading_callback" example_created]
  from d example_two_arrays_untouched example_down_run
  have "\<exists>r. fst (down example_dryrun example_env_two_applied None example_created) = Inr (Some r)
          \<and> sql r = [''ALTER TABLE users DROP COLUMN email;'',
                     ''DELETE FROM `SequelizeMeta` WHERE `name` = '0002-add-email';'']
          \<and> output_text r = formatQueries (name r) (direction r) (sql r)"
    by simp
  moreover from u example_reading_untouched example_up_run_reading
  have "\<exists>r. fst (up example_dryrun example_env (Some reading_callback) example_created) = Inr [r]
          \<and> sql r = [''CREATE TABLE users (id INTEGER);'',
                     ''INSERT INTO `SequelizeMeta` (`name`) VALUES ('0001-create-users');'']
          \<and> output_text r = formatQueries (name r) (direction r) (sql r)"
    by simp
  ultimately show ?thesis by simp
qed

subsection \<open>The result of \<open>down\<close>\<close>

lemma down_migration_require_cong:
  assumes "req' m = require env m"
  shows "down_migration ex (env\<lparr> require := req' \<rparr>) cb m s = down_migration ex env cb m s"
  using assms by (simp add: down_migration_def cong: sum.case_cong prod.case_cong)

lemma example_two_executed:
  "run_proc example_dryrun (database example_env_two_applied)
     (umzug_executed example_env_two_applied) (installed example_created)
   = (Inr [''0001-create-users'', ''0002-add-email''], installed example_created)"
  by (simp add: example_env_two_applied_def)

text \<open>
  C5, as the claim states it, fails in its last part, for the reason C4 does: with the
  callback that pushes \<open>EXTRA\<close> to the array it is given, the statement list of the
  result that \<open>down\<close> returns ends with \<open>EXTRA\<close>, not with the delete-record
  statement.
\<close>

theorem down_callback_changes_statements_counterexample:
  "fst (down example_dryrun example_env_two_applied (Some pushing_callback) example_created) =
     Inr (Some \<lparr> name = ''0002-add-email'', direction = ''down'',
             sql = [''ALTER TABLE users DROP COLUMN email;'',
                    ''DELETE FROM `SequelizeMeta` WHERE `name` = '0002-add-email';'',
                    ''EXTRA''],
             output_text = formatQueries ''0002-add-email'' ''down''
               [''ALTER TABLE users DROP COLUMN email;'',
                ''DELETE FROM `SequelizeMeta` WHERE `name` = '0002-add-email';''] \<rparr>)
   \<and> last [''ALTER TABLE users DROP COLUMN email;'',
            ''DELETE FROM `SequelizeMeta` WHERE `name` = '0002-add-email';'',
            ''EXTRA'']
       \<noteq> delete_record_statement (tableName example_dryrun) ''0002-add-email''"
  by code_simp

text \<open>
  C5, amended: when the runner reports at least one executed migration, \<open>down\<close> never
  returns \<open>null\<close>; a result it returns is for the last element of the executed
  sequence, with direction \<open>down\<close>, and the statement sequence sliced for it, which is
  what its output renders and what \<open>onMigration\<close> is handed, is what that migration's
  \<open>down\<close> procedure added to the buffer followed by the delete-record statement. No
  other migration is processed: the outcome of the call is the same whatever
  \<open>require\<close> would give for any other name. The \<open>sql\<close> of the returned result is
  that same array: when no migration procedure and no callback writes to an array, it
  is this sequence and its last element is the delete-record statement.
\<close>

theorem down_processes_last_executed:
  assumes "run_proc ex (database env) (umzug_executed env) (installed s) = (Inr names, s1)"
    and "names \<noteq> []"
  shows "fst (down ex env cb s) \<noteq> Inr None
     \<and> (\<forall>r. fst (down ex env cb s) = Inr (Some r) \<longrightarrow>
           name r = last names \<and> direction r = ''down''
           \<and> (\<exists>md. require env (last names) = Inr md
                 \<and> output_text r =
                     formatQueries (last names) ''down''
                       (captured_by ex (database env) (mod_down md)
                          (log_last_executed ex (last names) s1)
                          @ [delete_record_statement (tableName ex) (last names)])
                 \<and> (arrays_untouched env cb \<longrightarrow>
                       sql r = captured_by ex (database env) (mod_down md)
                                 (log_last_executed ex (last names) s1)
                               @ [delete_record_statement (tableName ex) (last names)]
                       \<and> last (sql r) = delete_record_statement (tableName ex) (last names))))
     \<and> (\<forall>req'. req' (last names) = require env (last names) \<longrightarrow>
           down ex (env\<lparr> require := req' \<rparr>) cb s = down ex env cb s)"
proof -
  let ?s2 = "log_last_executed ex (last names) s1"
  obtain w s3 where m: "down_migration ex env cb (last names) ?s2 = (w, s3)"
    by (cases "down_migration ex env cb (last names) ?s2")
  have t: "down_try ex env' cb s =
      (case down_migration ex env' cb (last names) ?s2 of
         (Inl e, s3) \<Rightarrow> (Inl e, s3)
       | (Inr result, s3) \<Rightarrow> (Inr (Some result), logger_log ex dry_run_completed s3))"
    if "database env' = database env" "umzug_executed env' = umzug_executed env" for env'
    using down_try_discovered [of ex env' s names s1 cb] assms that by simp
  have t0: "down_try ex env cb s =
      (case w of Inl e \<Rightarrow> (Inl e, s3)
       | Inr result \<Rightarrow> (Inr (Some result), logger_log ex dry_run_completed s3))"
    using t [of env] m by (simp split: sum.splits)
  have a: "fst (down ex env cb s) \<noteq> Inr None"
    unfolding down_def t0 by (cases w) simp_all
  have b: "name r = last names \<and> direction r = ''down''
           \<and> (\<exists>md. require env (last names) = Inr md
                 \<and> output_text r =
                     formatQueries (last names) ''down''
                       (captured_by ex (database env) (mod_down md) ?s2
                          @ [delete_record_statement (tableName ex) (last names)])
                 \<and> (arrays_untouched env cb \<longrightarrow>
                       sql r = captured_by ex (database env) (mod_down md) ?s2
                               @ [delete_record_statement (tableName ex) (last names)]
                       \<and> last (sql r) = delete_record_statement (tableName ex) (last names)))"
    if "fst (down ex env cb s) = Inr (Some r)" for r
  proof -
    from that obtain obj where w: "w = Inr obj"
      and rd: "r = read_result (logger_log ex dry_run_completed s3) obj"
      unfolding down_def t0 by (cases w) auto
    with m have "down_migration ex env cb (last names) ?s2 = (Inr obj, s3)" by simp
    from down_migration_read [OF this, of dry_run_completed] obtain md where
      h: "require env (last names) = Inr md
           \<and> name r = last names
           \<and> direction r = ''down''
           \<and> output_text r =
               formatQueries (last names) ''down''
                 (captured_by ex (database env) (mod_down md) ?s2
                    @ [delete_record_statement (tableName ex) (last names)])
           \<and> (arrays_untouched env cb \<longrightarrow>
                 sql r =
                   captured_by ex (database env) (mod_down md) ?s2
                     @ [delete_record_statement (tableName ex) (last names)])"
      unfolding rd by auto
    have "\<exists>md. require env (last names) = Inr md
                 \<and> output_text r =
                     formatQueries (last names) ''down''
                       (captured_by ex (database env) (mod_down md) ?s2
                          @ [delete_record_statement (tableName ex) (last names)])
                 \<and> (arrays_untouched env cb \<longrightarrow>
                       sql r = captured_by ex (database env) (mod_down md) ?s2
                               @ [delete_record_statement (tableName ex) (last names)]
                       \<and> last (sql r) = delete_record_statement (tableName ex) (last names))"
      apply (rule exI [of _ md]) using h by simp
    with h show ?thesis by simp
  qed
  have c: "down ex (env\<lparr> require := req' \<rparr>) cb s = down ex env cb s"
    if "req' (last names) = require env (last names)" for req'
    unfolding down_def
    using t [of "env\<lparr> require := req' \<rparr>"] t [of env]
      down_migration_require_cong [of req' "last names" env ex cb ?s2] that
    by simp
  from a b c show ?thesis by simp
qed

theorem down_processes_last_executed_witness:
  "fst (down example_dryrun example_env_two_applied None example_created) =
     Inr (Some \<lparr> name = ''0002-add-email'', direction = ''down'',
              sql = [''ALTER TABLE users DROP COLUMN email;'',
                     ''DELETE FROM `SequelizeMeta` WHERE `name` = '0002-add-email';''],
              output_text = formatQueries ''0002-add-email'' ''down''
                [''ALTER TABLE users DROP COLUMN email;'',
                 ''DELETE FROM `SequelizeMeta` WHERE `name` = '0002-add-email';''] \<rparr>)
   \<and> last [''0001-create-users'', ''0002-add-email''] = ''0002-add-email''
   \<and> last [''ALTER TABLE users DROP COLUMN email;'',
            ''DELETE FROM `SequelizeMeta` WHERE `name` = '0002-add-email';'']
       = delete_record_statement (tableName example_dryrun)
           (last [''0001-create-users'', ''0002-add-email''])"
proof -
  let ?R = "\<lparr> name = ''0002-add-email'', direction = ''down'',
              sql = [''ALTER TABLE users DROP COLUMN email;'',
                     ''DELETE FROM `SequelizeMeta` WHERE `name` = '0002-add-email';''],
              output_text = formatQueries ''0002-add-email'' ''down''
                [''ALTER TABLE users DROP COLUMN email;'',
                 ''DELETE FROM `SequelizeMeta` WHERE `name` = '0002-add-email';''] \<rparr>"
  have ne: "[''0001-create-users'', ''0002-add-email''] \<noteq> []" by simp
  have f: "fst (down example_dryrun example_env_two_applied None example_created)
             = Inr (Some ?R)"
    using example_down_run by simp
  from down_processes_last_executed [OF example_two_executed ne, of None] f
    example_two_arrays_untouched
  have "last (sql ?R) = delete_record_statement (tableName example_dryrun)
           (last [''0001-create-users'', ''0002-add-email''])"
    by meson
  then show ?thesis using f by simp
qed

subsection \<open>Nothing to do\<close>

lemma example_nothing_up:
  "run_proc example_dryrun (database example_env_applied) (umzug_pending example_env_applied)
     (installed example_created) = (Inr [], installed example_created)"
  by (simp add: example_env_applied_def example_env_def)

lemma example_nothing_down:
  "run_proc example_dryrun (database example_env) (umzug_executed example_env)
     (installed example_created) = (Inr [], installed example_created)"
  by (simp add: example_env_def)

text \<open>
  C7: when the runner reports no pending migration, \<open>up\<close> returns the empty list;
  when it reports no executed migration, \<open>down\<close> returns \<open>null\<close>, which is no
  result.
\<close>

theorem nothing_to_do:
  "(run_proc ex (database env) (umzug_pending env) (installed s) = (Inr [], s1)
      \<longrightarrow> fst (up ex env cb s) = Inr [])
   \<and> (run_proc ex (database env) (umzug_executed env) (installed s) = (Inr [], s2)
      \<longrightarrow> fst (down ex env cb s) = Inr None)"
  by (simp add: up_def down_def up_try_discovered down_try_discovered)

theorem nothing_to_do_witness:
  "fst (up example_dryrun example_env_applied None example_created) = Inr []
   \<and> fst (down example_dryrun example_env None example_created) = Inr None"
  using nothing_to_do [of example_dryrun example_env_applied example_created
          "installed example_created" None "installed example_created"]
    nothing_to_do [of example_dryrun example_env example_created
          "installed example_created" None "installed example_created"]
    example_nothing_up example_nothing_down
  by simp

subsection \<open>Restoring the patched slots\<close>

lemma patched_slots_restore: "patched_slots (restore ex s) = originals ex"
  by (simp add: patched_slots_def restore_def originals_def)

lemma example_createDryRun:
  "createDryRun example_options example_process = (Inr example_dryrun, example_created)"
  by code_simp

text \<open>
  C3, as the claim states it, fails on the first run of an executor: before the run
  \<open>sequelize.query\<close> is the handle's own function (object 0), after it the slot
  holds \<open>originals.query\<close>, the bound copy that \<open>createDryRun\<close> made (object 3).
  The two are different references.
\<close>

theorem first_run_identity_counterexample:
  "createDryRun example_options example_process = (Inr example_dryrun, example_created)
   \<and> patched_slots example_created = (0, 1, 2)
   \<and> patched_slots (snd (up example_dryrun example_env None example_created)) = (3, 1, 2)"
  by code_simp

text \<open>
  C3, amended: on every exit path of \<open>up\<close> and of \<open>down\<close> the three slots hold the
  references the executor stored when it was created: for the two storage hooks the
  references the storage class had at that moment, for \<open>sequelize.query\<close> the bound
  copy made at that moment, which is a new function object and not the function the
  handle had. Whenever the slots hold these references before a run (as they do after
  any earlier run of the same executor), they hold the same references after it. An
  error thrown while loading a migration or by its procedure, at whatever position in
  the pending list, is the error the call throws, and the slots are restored then too.
\<close>

theorem restore_on_every_exit:
  "patched_slots (snd (up ex env cb s)) = originals ex
   \<and> patched_slots (snd (down ex env cb s)) = originals ex
   \<and> (patched_slots s = originals ex \<longrightarrow>
         patched_slots (snd (up ex env cb s)) = patched_slots s
         \<and> patched_slots (snd (down ex env cb s)) = patched_slots s)
   \<and> (createDryRun opts s0 = (Inr ex, s0') \<longrightarrow>
         originals ex = (next_ref s0, storage_logMigration s0, storage_unlogMigration s0)
         \<and> patched_slots s0' = patched_slots s0
         \<and> (sequelize_query s0 < next_ref s0 \<longrightarrow> originals_query ex \<noteq> sequelize_query s0))
   \<and> (run_proc ex (database env) (umzug_pending env) (installed s) = (Inr (before @ m # rest), s1)
        \<and> up_loop ex env cb before [] (log_pending ex (before @ m # rest) s1) = (Inr finished, s2)
        \<and> (require env m = Inl e \<and> s3 = s2
            \<or> (\<exists>md. require env m = Inr md
                  \<and> run_proc ex (database env) (mod_up md) s2 = (Inl e, s3)))
        \<longrightarrow> up ex env cb s = (Inl e, restore ex s3))
   \<and> (run_proc ex (database env) (umzug_executed env) (installed s) = (Inr names, t1)
        \<and> names \<noteq> []
        \<and> (require env (last names) = Inl e \<and> t3 = log_last_executed ex (last names) t1
            \<or> (\<exists>md. require env (last names) = Inr md
                  \<and> run_proc ex (database env) (mod_down md)
                        (log_last_executed ex (last names) t1) = (Inl e, t3)))
        \<longrightarrow> down ex env cb s = (Inl e, restore ex t3))"
proof -
  have a: "patched_slots (snd (up ex env cb s)) = originals ex"
    by (simp add: snd_up patched_slots_restore)
  have b: "patched_slots (snd (down ex env cb s)) = originals ex"
    by (simp add: snd_down patched_slots_restore)
  have c: "originals ex = (next_ref s0, storage_logMigration s0, storage_unlogMigration s0)
         \<and> patched_slots s0' = patched_slots s0
         \<and> (sequelize_query s0 < next_ref s0 \<longrightarrow> originals_query ex \<noteq> sequelize_query s0)"
    if "createDryRun opts s0 = (Inr ex, s0')"
    using that
    by (auto simp add: createDryRun_def originals_def patched_slots_def split: if_splits)
  have d: "up ex env cb s = (Inl e, restore ex s3)"
    if disc: "run_proc ex (database env) (umzug_pending env) (installed s)
                = (Inr (before @ m # rest), s1)"
      and pre: "up_loop ex env cb before [] (log_pending ex (before @ m # rest) s1)
                = (Inr finished, s2)"
      and thrown: "require env m = Inl e \<and> s3 = s2
            \<or> (\<exists>md. require env m = Inr md
                  \<and> run_proc ex (database env) (mod_up md) s2 = (Inl e, s3))"
  proof -
    from thrown have "up_migration ex env cb m s2 = (Inl e, s3)"
      using up_migration_require_throws [of env m e ex cb s2]
        up_migration_procedure_throws [of env m _ ex s2 e s3 cb]
      by auto
    then have "up_loop ex env cb (before @ m # rest) [] (log_pending ex (before @ m # rest) s1)
                 = (Inl e, s3)"
      using pre by (simp add: up_loop_append)
    then have "up_try ex env cb s = (Inl e, s3)"
      using up_try_discovered [OF disc, of cb] by simp
    then show ?thesis by (simp add: up_def)
  qed
  have f: "down ex env cb s = (Inl e, restore ex t3)"
    if disc: "run_proc ex (database env) (umzug_executed env) (installed s) = (Inr names, t1)"
      and ne: "names \<noteq> []"
      and thrown: "require env (last names) = Inl e \<and> t3 = log_last_executed ex (last names) t1
            \<or> (\<exists>md. require env (last names) = Inr md
                  \<and> run_proc ex (database env) (mod_down md)
                        (log_last_executed ex (last names) t1) = (Inl e, t3))"
  proof -
    from thrown have
      "down_migration ex env cb (last names) (log_last_executed ex (last names) t1) = (Inl e, t3)"
      using down_migration_require_throws
          [of env "last names" e ex cb "log_last_executed ex (last names) t1"]
        down_migration_procedure_throws
          [of env "last names" _ ex "log_last_executed ex (last names) t1" e t3 cb]
      by auto
    then have "down_try ex env cb s = (Inl e, t3)"
      using down_try_discovered [OF disc, of cb] ne by simp
    then show ?thesis by (simp add: down_def)
  qed
  from a b c d f show ?thesis by simp
qed

lemma example_failing_pending:
  "run_proc example_dryrun (database example_env_failing) (umzug_pending example_env_failing)
     (installed example_created) = (Inr ([] @ ''0001-create-users'' # []), installed example_created)"
  by (simp add: example_env_failing_def example_env_def)

lemma example_failing_executed:
  "run_proc example_dryrun (database example_env_failing) (umzug_executed example_env_failing)
     (installed example_created) = (Inr [''0001-create-users''], installed example_created)"
  by (simp add: example_env_failing_def example_env_def)

lemma example_failing_loop_before:
  "up_loop example_dryrun example_env_failing None [] []
     (log_pending example_dryrun ([] @ ''0001-create-users'' # []) (installed example_created))
   = (Inr [], installed example_created)"
  by code_simp

lemma example_failing_require:
  "require example_env_failing ''0001-create-users''
     = Inr \<lparr> mod_up = failing_up, mod_down = failing_up \<rparr>"
  by (simp add: example_env_failing_def example_env_def)

lemma example_failing_procedure:
  "run_proc example_dryrun (database example_env_failing) failing_up (installed example_created)
     = (Inl (Error ''boom''),
        (installed example_created)\<lparr> capturedQueries := [''CREATE TABLE users (id INTEGER);''] \<rparr>)"
  by code_simp

lemma example_failing_log_last:
  "log_last_executed example_dryrun ''0001-create-users'' (installed example_created)
     = installed example_created"
  by code_simp

theorem restore_on_every_exit_witness:
  "originals example_dryrun = (3, 1, 2)
   \<and> patched_slots example_created = (0, 1, 2)
   \<and> up example_dryrun example_env_failing None example_created =
       (Inl (Error ''boom''),
        restore example_dryrun
          ((installed example_created)\<lparr> capturedQueries := [''CREATE TABLE users (id INTEGER);''] \<rparr>))
   \<and> down example_dryrun example_env_failing None example_created =
       (Inl (Error ''boom''),
        restore example_dryrun
          ((installed example_created)\<lparr> capturedQueries := [''CREATE TABLE users (id INTEGER);''] \<rparr>))
   \<and> patched_slots (snd (up example_dryrun example_env None
         (restore example_dryrun example_created))) = patched_slots (restore example_dryrun example_created)"
proof -
  note inst = restore_on_every_exit
    [of example_dryrun example_env_failing None example_created
        example_options example_process example_created
        "[]" "''0001-create-users''" "[]" "installed example_created"
        "[]" "installed example_created" "Error ''boom''"
        "(installed example_created)\<lparr> capturedQueries := [''CREATE TABLE users (id INTEGER);''] \<rparr>"
        "[''0001-create-users'']" "installed example_created"
        "(installed example_created)\<lparr> capturedQueries := [''CREATE TABLE users (id INTEGER);''] \<rparr>"]
  have md: "mod_up \<lparr> mod_up = failing_up, mod_down = failing_up \<rparr> = failing_up"
    "mod_down \<lparr> mod_up = failing_up, mod_down = failing_up \<rparr> = failing_up"
    by simp_all
  have o: "originals example_dryrun = (3, 1, 2)" by code_simp
  have p: "patched_slots example_created = (0, 1, 2)" by code_simp
  have up_thrown: "\<exists>md. require example_env_failing ''0001-create-users'' = Inr md
        \<and> run_proc example_dryrun (database example_env_failing) (mod_up md)
             (installed example_created)
           = (Inl (Error ''boom''),
              (installed example_created)\<lparr> capturedQueries := [''CREATE TABLE users (id INTEGER);''] \<rparr>)"
    apply (rule exI [of _ "\<lparr> mod_up = failing_up, mod_down = failing_up \<rparr>"])
    using example_failing_require example_failing_procedure by (simp only: md simp_thms)
  have down_thrown: "\<exists>md. require example_env_failing (last [''0001-create-users'']) = Inr md
        \<and> run_proc example_dryrun (database example_env_failing) (mod_down md)
             (log_last_executed example_dryrun (last [''0001-create-users''])
                (installed example_created))
           = (Inl (Error ''boom''),
              (installed example_created)\<lparr> capturedQueries := [''CREATE TABLE users (id INTEGER);''] \<rparr>)"
    apply (rule exI [of _ "\<lparr> mod_up = failing_up, mod_down = failing_up \<rparr>"])
    using example_failing_require example_failing_procedure
    by (simp only: md simp_thms example_failing_log_last last.simps if_True)

  have ne: "[''0001-create-users''] \<noteq> []" by simp
  have up_ok: "up example_dryrun example_env_failing None example_created =
       (Inl (Error ''boom''),
        restore example_dryrun
          ((installed example_created)\<lparr> capturedQueries := [''CREATE TABLE users (id INTEGER);''] \<rparr>))"
    using inst example_failing_pending example_failing_loop_before up_thrown by blast
  have down_ok: "down example_dryrun example_env_failing None example_created =
       (Inl (Error ''boom''),
        restore example_dryrun
          ((installed example_created)\<lparr> capturedQueries := [''CREATE TABLE users (id INTEGER);''] \<rparr>))"
    using inst example_failing_executed ne down_thrown by blast
  have again: "patched_slots (snd (up example_dryrun example_env None
         (restore example_dryrun example_created))) = patched_slots (restore example_dryrun example_created)"
    using restore_on_every_exit
      [of example_dryrun example_env None "restore example_dryrun example_created"]
      patched_slots_restore [of example_dryrun example_created]
    by simp
  from o p up_ok down_ok again show ?thesis by simp
qed

subsection \<open>The buffer across runs\<close>

lemma logger_log_with_earlier:
  "logger_log ex msg (with_earlier pre s) = with_earlier pre (logger_log ex msg s)"
  by (simp add: logger_log_def with_earlier_def)

lemma log_pending_with_earlier:
  "log_pending ex names (with_earlier pre s) = with_earlier pre (log_pending ex names s)"
proof -
  have "foldl (\<lambda>st (i, m). logger_log ex (f i m) st) (with_earlier pre t) xs
      = with_earlier pre (foldl (\<lambda>st (i, m). logger_log ex (f i m) st) t xs)"
    for f :: "nat \<Rightarrow> string \<Rightarrow> string" and t and xs :: "(nat \<times> string) list"
    by (induction xs arbitrary: t) (simp_all add: logger_log_with_earlier split: prod.splits)
  then show ?thesis by (simp add: log_pending_def logger_log_with_earlier)
qed

lemma installed_with_earlier: "installed (with_earlier pre s) = with_earlier pre (installed s)"
  by (simp add: installed_def setupQueryPatch_def setupStoragePatch_def with_earlier_def)

lemma restore_with_earlier: "restore ex (with_earlier pre s) = with_earlier pre (restore ex s)"
  by (simp add: restore_def with_earlier_def)

lemma run_callback_with_earlier:
  "run_callback ex db cb m qs (with_earlier pre s) =
     (case run_callback ex db cb m qs s of (r, s') \<Rightarrow> (r, with_earlier pre s'))"
  by (cases cb) (simp_all add: run_callback_def run_proc_with_earlier)

lemma capturedQueries_with_earlier:
  "capturedQueries (with_earlier pre s) = pre @ capturedQueries s"
  by (simp add: with_earlier_def)

lemma arrays_with_earlier: "arrays (with_earlier pre s) = arrays s"
  by (simp add: with_earlier_def)

lemma captured_by_with_earlier:
  "captured_by ex db p (with_earlier pre s) = captured_by ex db p s"
  by (simp add: captured_by_def run_proc_with_earlier capturedQueries_with_earlier
      split: prod.splits)

lemma sliced_with_earlier:
  "(with_earlier pre s)\<lparr> capturedQueries := capturedQueries (with_earlier pre s) @ [x],
                          arrays := arrays s @ [q] \<rparr>
     = with_earlier pre (s\<lparr> capturedQueries := capturedQueries s @ [x],
                              arrays := arrays s @ [q] \<rparr>)"
  by (simp add: with_earlier_def)

lemma read_result_with_earlier: "read_result (with_earlier pre s) = read_result s"
  by (simp add: fun_eq_iff read_result_def array_at_with_earlier)

lemma up_migration_with_earlier:
  "up_migration ex env cb m (with_earlier pre s) =
     (case up_migration ex env cb m s of (r, s') \<Rightarrow> (r, with_earlier pre s'))"
proof (cases "require env m")
  case (Inl e)
  then show ?thesis by (simp add: up_migration_require_throws)
next
  case (Inr md)
  obtain v s1 where run: "run_proc ex (database env) (mod_up md) s = (v, s1)"
    by (cases "run_proc ex (database env) (mod_up md) s")
  then have run': "run_proc ex (database env) (mod_up md) (with_earlier pre s)
      = (v, with_earlier pre s1)"
    by (simp add: run_proc_with_earlier)
  show ?thesis
  proof (cases v)
    case (Inl e)
    with Inr run run' show ?thesis by (simp add: up_migration_procedure_throws)
  next
    case ok: (Inr u)
    let ?Q = "captured_by ex (database env) (mod_up md) s
                @ [insert_record_statement (tableName ex) m]"
    let ?s3 = "logger_log ex (formatQueries m ''up'' ?Q)
                (s1\<lparr> capturedQueries :=
                       capturedQueries s1 @ [insert_record_statement (tableName ex) m],
                     arrays := arrays s1 @ [?Q] \<rparr>)"
    obtain w s4 where cb: "run_callback ex (database env) cb m (length (arrays s1)) ?s3 = (w, s4)"
      by (cases "run_callback ex (database env) cb m (length (arrays s1)) ?s3")
    then have cb': "run_callback ex (database env) cb m (length (arrays s1))
          (with_earlier pre ?s3) = (w, with_earlier pre s4)"
      by (simp add: run_callback_with_earlier)
    have l: "up_migration ex env cb m s =
        (case w of Inl e \<Rightarrow> (Inl e, s4)
         | Inr u \<Rightarrow> (Inr \<lparr> obj_name = m, obj_direction = ''up'', obj_sql = length (arrays s1),
                            obj_output = formatQueries m ''up'' ?Q \<rparr>, s4))"
      using up_migration_run [OF Inr run [unfolded ok], of cb] cb
      by (simp split: sum.splits)
    have r: "up_migration ex env cb m (with_earlier pre s) =
        (case w of Inl e \<Rightarrow> (Inl e, with_earlier pre s4)
         | Inr u \<Rightarrow> (Inr \<lparr> obj_name = m, obj_direction = ''up'', obj_sql = length (arrays s1),
                            obj_output = formatQueries m ''up'' ?Q \<rparr>, with_earlier pre s4))"
      using up_migration_run [OF Inr run' [unfolded ok], of cb] cb'
      by (simp add: captured_by_with_earlier sliced_with_earlier arrays_with_earlier
          logger_log_with_earlier cong: prod.case_cong sum.case_cong)
    show ?thesis unfolding l r by (cases w) simp_all
  qed
qed

lemma down_migration_with_earlier:
  "down_migration ex env cb m (with_earlier pre s) =
     (case down_migration ex env cb m s of (r, s') \<Rightarrow> (r, with_earlier pre s'))"
proof (cases "require env m")
  case (Inl e)
  then show ?thesis by (simp add: down_migration_require_throws)
next
  case (Inr md)
  obtain v s1 where run: "run_proc ex (database env) (mod_down md) s = (v, s1)"
    by (cases "run_proc ex (database env) (mod_down md) s")
  then have run': "run_proc ex (database env) (mod_down md) (with_earlier pre s)
      = (v, with_earlier pre s1)"
    by (simp add: run_proc_with_earlier)
  show ?thesis
  proof (cases v)
    case (Inl e)
    with Inr run run' show ?thesis by (simp add: down_migration_procedure_throws)
  next
    case ok: (Inr u)
    let ?Q = "captured_by ex (database env) (mod_down md) s
                @ [delete_record_statement (tableName ex) m]"
    let ?s3 = "logger_log ex (formatQueries m ''down'' ?Q)
                (s1\<lparr> capturedQueries :=
                       capturedQueries s1 @ [delete_record_statement (tableName ex) m],
                     arrays := arrays s1 @ [?Q] \<rparr>)"
    obtain w s4 where cb: "run_callback ex (database env) cb m (length (arrays s1)) ?s3 = (w, s4)"
      by (cases "run_callback ex (database env) cb m (length (arrays s1)) ?s3")
    then have cb': "run_callback ex (database env) cb m (length (arrays s1))
          (with_earlier pre ?s3) = (w, with_earlier pre s4)"
      by (simp add: run_callback_with_earlier)
    have l: "down_migration ex env cb m s =
        (case w of Inl e \<Rightarrow> (Inl e, s4)
         | Inr u \<Rightarrow> (Inr \<lparr> obj_name = m, obj_direction = ''down'', obj_sql = length (arrays s1),
                            obj_output = formatQueries m ''down'' ?Q \<rparr>, s4))"
      using down_migration_run [OF Inr run [unfolded ok], of cb] cb
      by (simp split: sum.splits)
    have r: "down_migration ex env cb m (with_earlier pre s) =
        (case w of Inl e \<Rightarrow> (Inl e, with_earlier pre s4)
         | Inr u \<Rightarrow> (Inr \<lparr> obj_name = m, obj_direction = ''down'', obj_sql = length (arrays s1),
                            obj_output = formatQueries m ''down'' ?Q \<rparr>, with_earlier pre s4))"
      using down_migration_run [OF Inr run' [unfolded ok], of cb] cb'
      by (simp add: captured_by_with_earlier sliced_with_earlier arrays_with_earlier
          logger_log_with_earlier cong: prod.case_cong sum.case_cong)
    show ?thesis unfolding l r by (cases w) simp_all
  qed
qed

lemma up_loop_with_earlier:
  "up_loop ex env cb ms acc (with_earlier pre s) =
     (case up_loop ex env cb ms acc s of (r, s') \<Rightarrow> (r, with_earlier pre s'))"
proof (induction ms arbitrary: acc s)
  case Nil
  then show ?case by simp
next
  case (Cons m ms)
  obtain v s1 where step: "up_migration ex env cb m s = (v, s1)"
    by (cases "up_migration ex env cb m s")
  then have step': "up_migration ex env cb m (with_earlier pre s) = (v, with_earlier pre s1)"
    by (simp add: up_migration_with_earlier)
  show ?case
  proof (cases v)
    case (Inl e)
    with step step' show ?thesis by simp
  next
    case (Inr r)
    with step step' Cons.IH [of "acc @ [r]" s1] show ?thesis by simp
  qed
qed

lemma up_try_with_earlier:
  "up_try ex env cb (with_earlier pre s) =
     (case up_try ex env cb s of (r, s') \<Rightarrow> (r, with_earlier pre s'))"
proof -
  obtain v s1 where d: "run_proc ex (database env) (umzug_pending env) (installed s) = (v, s1)"
    by (cases "run_proc ex (database env) (umzug_pending env) (installed s)")
  then have d': "run_proc ex (database env) (umzug_pending env) (installed (with_earlier pre s))
      = (v, with_earlier pre s1)"
    by (simp add: installed_with_earlier run_proc_with_earlier)
  show ?thesis
  proof (cases v)
    case (Inl e)
    with d d' show ?thesis by (simp add: up_try_discovery_failed)
  next
    case (Inr names)
    obtain w s4 where l: "up_loop ex env cb names [] (log_pending ex names s1) = (w, s4)"
      by (cases "up_loop ex env cb names [] (log_pending ex names s1)")
    then have l': "up_loop ex env cb names [] (log_pending ex names (with_earlier pre s1))
        = (w, with_earlier pre s4)"
      by (simp add: log_pending_with_earlier up_loop_with_earlier)
    show ?thesis
      unfolding up_try_discovered [OF d [unfolded Inr]] up_try_discovered [OF d' [unfolded Inr]]
      using l l' by (cases w) (simp_all add: logger_log_with_earlier)
  qed
qed

lemma down_try_with_earlier:
  "down_try ex env cb (with_earlier pre s) =
     (case down_try ex env cb s of (r, s') \<Rightarrow> (r, with_earlier pre s'))"
proof -
  obtain v s1 where d: "run_proc ex (database env) (umzug_executed env) (installed s) = (v, s1)"
    by (cases "run_proc ex (database env) (umzug_executed env) (installed s)")
  then have d': "run_proc ex (database env) (umzug_executed env) (installed (with_earlier pre s))
      = (v, with_earlier pre s1)"
    by (simp add: installed_with_earlier run_proc_with_earlier)
  show ?thesis
  proof (cases v)
    case (Inl e)
    with d d' show ?thesis by (simp add: down_try_discovery_failed)
  next
    case (Inr names)
    let ?s2 = "log_last_executed ex (last names) s1"
    obtain w s4 where l: "down_migration ex env cb (last names) ?s2 = (w, s4)"
      by (cases "down_migration ex env cb (last names) ?s2")
    then have l': "down_migration ex env cb (last names)
          (log_last_executed ex (last names) (with_earlier pre s1)) = (w, with_earlier pre s4)"
      by (simp add: log_last_executed_def logger_log_with_earlier down_migration_with_earlier)
    show ?thesis
      unfolding down_try_discovered [OF d [unfolded Inr]]
        down_try_discovered [OF d' [unfolded Inr]]
      using l l' by (cases w) (simp_all add: logger_log_with_earlier)
  qed
qed

lemma with_earlier_self: "with_earlier (capturedQueries s) (s\<lparr> capturedQueries := [] \<rparr>) = s"
  by (simp add: with_earlier_def)

text \<open>
  C6, as the claim states it, fails: the buffer is created once, with the executor, and
  no run empties it. After the first run of the example the two statements are still
  in the buffer, which is the buffer the next run starts with.
\<close>

theorem buffer_survives_run_counterexample:
  "capturedQueries example_created = []
   \<and> capturedQueries (snd (up example_dryrun example_env None example_created)) =
       [''CREATE TABLE users (id INTEGER);'',
        ''INSERT INTO `SequelizeMeta` (`name`) VALUES ('0001-create-users');'']"
  by code_simp

text \<open>
  C6, amended: the buffer belongs to the executor and is never reset; a run only appends
  to it, so the statements of earlier runs are still in it when the next run starts.
  What is scoped to a run are the results: a run started with earlier statements in the
  buffer returns exactly what it returns without them, and leaves them in front of what
  it adds.
\<close>

theorem buffer_is_never_reset:
  "up ex env cb (with_earlier earlier s) =
     (case up ex env cb s of (r, s') \<Rightarrow> (r, with_earlier earlier s'))
   \<and> down ex env cb (with_earlier earlier s) =
     (case down ex env cb s of (r, s') \<Rightarrow> (r, with_earlier earlier s'))
   \<and> (\<exists>added. capturedQueries (snd (up ex env cb s)) = capturedQueries s @ added)
   \<and> (\<exists>added. capturedQueries (snd (down ex env cb s)) = capturedQueries s @ added)"
proof -
  have u: "up ex env cb (with_earlier pre t) =
     (case up ex env cb t of (r, s') \<Rightarrow> (r, with_earlier pre s'))" for pre t
    by (simp add: up_def up_try_with_earlier restore_with_earlier read_result_with_earlier
        split: prod.splits sum.splits)
  have d: "down ex env cb (with_earlier pre t) =
     (case down ex env cb t of (r, s') \<Rightarrow> (r, with_earlier pre s'))" for pre t
    by (simp add: down_def down_try_with_earlier restore_with_earlier read_result_with_earlier
        split: prod.splits sum.splits)
  let ?e = "s\<lparr> capturedQueries := [] \<rparr>"
  have "snd (up ex env cb s) = with_earlier (capturedQueries s) (snd (up ex env cb ?e))"
    using u [of "capturedQueries s" ?e] by (simp add: with_earlier_self split: prod.splits)
  then have ua: "capturedQueries (snd (up ex env cb s))
      = capturedQueries s @ capturedQueries (snd (up ex env cb ?e))"
    by (simp add: with_earlier_def)
  have "snd (down ex env cb s) = with_earlier (capturedQueries s) (snd (down ex env cb ?e))"
    using d [of "capturedQueries s" ?e] by (simp add: with_earlier_self split: prod.splits)
  then have da: "capturedQueries (snd (down ex env cb s))
      = capturedQueries s @ capturedQueries (snd (down ex env cb ?e))"
    by (simp add: with_earlier_def)
  from ua have "\<exists>added. capturedQueries (snd (up ex env cb s)) = capturedQueries s @ added" ..
  moreover from da
  have "\<exists>added. capturedQueries (snd (down ex env cb s)) = capturedQueries s @ added" ..
  ultimately show ?thesis using u [of earlier s] d [of earlier s] by simp
qed

theorem buffer_is_never_reset_witness:
  "capturedQueries
     (snd (down example_dryrun example_env_applied None
        (snd (up example_dryrun example_env None example_created)))) =
     [''CREATE TABLE users (id INTEGER);'',
      ''INSERT INTO `SequelizeMeta` (`name`) VALUES ('0001-create-users');'',
      ''DROP TABLE users;'',
      ''DELETE FROM `SequelizeMeta` WHERE `name` = '0001-create-users';'']
   \<and> fst (down example_dryrun example_env_applied None
        (snd (up example_dryrun example_env None example_created)))
     = fst (down example_dryrun example_env_applied None
        (example_created\<lparr> sequelize_query := 3, next_ref := 7 \<rparr>))"
proof -
  let ?c = "[''CREATE TABLE users (id INTEGER);'',
      ''INSERT INTO `SequelizeMeta` (`name`) VALUES ('0001-create-users');'']"
  let ?t = "example_created\<lparr> sequelize_query := 3, next_ref := 7, arrays := [?c] \<rparr>"
  have after: "snd (up example_dryrun example_env None example_created) = with_earlier ?c ?t"
    by code_simp
  have buf: "capturedQueries (snd (down example_dryrun example_env_applied None ?t)) =
     [''DROP TABLE users;'',
      ''DELETE FROM `SequelizeMeta` WHERE `name` = '0001-create-users';'']"
    by code_simp
  have same: "fst (down example_dryrun example_env_applied None ?t)
     = fst (down example_dryrun example_env_applied None
        (example_created\<lparr> sequelize_query := 3, next_ref := 7 \<rparr>))"
    by code_simp
  from buffer_is_never_reset [of example_dryrun example_env_applied None ?c ?t]
  have "down example_dryrun example_env_applied None (with_earlier ?c ?t) =
     (case down example_dryrun example_env_applied None ?t of
        (r, s') \<Rightarrow> (r, with_earlier ?c s'))"
    by (rule conjunct1 [OF conjunct2])
  then show ?thesis
    unfolding after using buf same
    by (simp add: capturedQueries_with_earlier split: prod.splits)
qed

subsection \<open>The patched entry point\<close>

text \<open>
  C1, as the claim states it, fails for the query type \<open>SELECT\<close>: a statement that the
  classifier captures is appended to the buffer and then handed to the original function,
  so it is executed by the real database, and the call returns what the database
  returned rather than an empty result set.
\<close>

theorem captured_select_reaches_database_counterexample:
  "\<not> shouldPassThrough (tableName example_dryrun) ''UPDATE users SET active = 1 RETURNING id;''
   \<and> query_patch example_dryrun (database example_env)
        (SqlText ''UPDATE users SET active = 1 RETURNING id;'')
        (OptionsObject (Some QueryTypes_SELECT)) example_created
     = (Inr (FromDatabase ()),
        example_created\<lparr>
          capturedQueries := [''UPDATE users SET active = 1 RETURNING id;''],
          db_calls := [(SqlText ''UPDATE users SET active = 1 RETURNING id;'',
                        OptionsObject (Some ''SELECT''))] \<rparr>)"
  by code_simp

text \<open>
  C1, amended: for every string statement that the classifier captures, the patched
  entry point appends the statement text to the buffer. When the call's query type is
  \<open>SELECT\<close> it then calls the original function with the statement and returns its
  outcome. For every other query type nothing reaches the real database and the state
  changes in the buffer only; the call returns \<open>[0, 0]\<close> when the type is insert,
  update or delete and \<open>[[], {}]\<close> otherwise.
\<close>

theorem captured_statement_result:
  assumes "\<not> shouldPassThrough (tableName ex) stmt"
  shows "capturedQueries (snd (query_patch ex db (SqlText stmt) opts s)) = capturedQueries s @ [stmt]
     \<and> (if options_type opts = Some QueryTypes_SELECT
         then query_patch ex db (SqlText stmt) opts s =
                originals_query_call db (SqlText stmt) (default_options opts)
                  (s\<lparr> capturedQueries := capturedQueries s @ [stmt] \<rparr>)
              \<and> db_calls (snd (query_patch ex db (SqlText stmt) opts s)) =
                  db_calls s @ [(SqlText stmt, default_options opts)]
         else query_patch ex db (SqlText stmt) opts s =
                (Inr (if options_type opts \<in> {Some QueryTypes_INSERT, Some QueryTypes_UPDATE,
                                               Some QueryTypes_DELETE}
                      then EmptyEffect else EmptyResultSet),
                 s\<lparr> capturedQueries := capturedQueries s @ [stmt] \<rparr>))"
proof -
  have t: "options_type (default_options opts) = options_type opts"
    by (cases opts) (simp_all add: default_options_def options_type_def)
  show ?thesis
    using assms
    by (simp add: query_patch_def Let_def t originals_query_call_def)
qed

theorem captured_statement_result_witness:
  "query_patch example_dryrun (database example_env)
      (SqlText ''INSERT INTO users (id) VALUES (1);'')
      (OptionsObject (Some QueryTypes_INSERT)) example_created
     = (Inr EmptyEffect,
        example_created\<lparr> capturedQueries := [''INSERT INTO users (id) VALUES (1);''] \<rparr>)
   \<and> query_patch example_dryrun (database example_env)
      (SqlText ''CREATE TABLE users (id INTEGER);'') OptionsUndefined example_created
     = (Inr EmptyResultSet,
        example_created\<lparr> capturedQueries := [''CREATE TABLE users (id INTEGER);''] \<rparr>)"
proof -
  have a: "\<not> shouldPassThrough (tableName example_dryrun) ''INSERT INTO users (id) VALUES (1);''"
    by code_simp
  have b: "\<not> shouldPassThrough (tableName example_dryrun) ''CREATE TABLE users (id INTEGER);''"
    by code_simp
  have c: "capturedQueries example_created = []" by code_simp
  from captured_statement_result [OF a, of "database example_env"
      "OptionsObject (Some QueryTypes_INSERT)" example_created]
    captured_statement_result [OF b, of "database example_env" OptionsUndefined example_created]
  show ?thesis
    by (simp add: c options_type_def QueryTypes_SELECT_def QueryTypes_INSERT_def
        QueryTypes_UPDATE_def QueryTypes_DELETE_def)
qed

text \<open>
  C8: a payload that is not a string goes to the original function as it is, together
  with the options (the empty object when none were given); the table name and the
  classifier play no part, and the buffer is left as it was.
\<close>

theorem non_string_payload_passes_through:
  "query_patch ex db (SqlOther v) opts s =
     originals_query_call db (SqlOther v) (default_options opts) s
   \<and> capturedQueries (snd (query_patch ex db (SqlOther v) opts s)) = capturedQueries s
   \<and> db_calls (snd (query_patch ex db (SqlOther v) opts s)) =
       db_calls s @ [(SqlOther v, default_options opts)]"
  by (simp add: query_patch_def originals_query_call_def Let_def)

theorem non_string_payload_passes_through_witness:
  "query_patch example_dryrun (database example_env) (SqlOther 0) OptionsUndefined example_created
     = (Inr (FromDatabase ()),
        example_created\<lparr> db_calls := [(SqlOther 0, OptionsObject None)] \<rparr>)"
proof -
  have "originals_query_call (database example_env) (SqlOther 0)
          (default_options OptionsUndefined) example_created
     = (Inr (FromDatabase ()),
        example_created\<lparr> db_calls := [(SqlOther 0, OptionsObject None)] \<rparr>)"
    by code_simp
  with non_string_payload_passes_through
    [of example_dryrun "database example_env" 0 OptionsUndefined example_created]
  show ?thesis by simp
qed

end
